theory Spec2Isabelle
  imports Main "HOL-Library.Sublist" "HOL-Library.List_Lexorder" "HOL-Library.Multiset"
begin

section \<open>Strings\<close>

text \<open>
  A JavaScript string is a sequence of UTF-16 code units. A code unit is a natural number
  below 65536; \<open>===\<close> on strings is equality of the sequences, and a regular expression
  without the \<open>u\<close> flag works on code units. \<open>str\<close> writes an ASCII literal.
\<close>

type_synonym js_string = "nat list"

definition str :: "string \<Rightarrow> js_string" where
  "str s = map of_char s"

text \<open>
  The class \<open>\s\<close> of ECMAScript: tab, line feed, vertical tab, form feed, carriage
  return, space, U+00A0, U+1680, U+2000 to U+200A, U+2028, U+2029, U+202F, U+205F, U+3000
  and U+FEFF.
\<close>

definition is_space :: "nat \<Rightarrow> bool" where
  "is_space c =
     (c \<in> set [9, 10, 11, 12, 13, 32, 160, 5760, 8232, 8233, 8239, 8287, 12288, 65279]
      \<or> (8192 \<le> c \<and> c \<le> 8202))"

section \<open>The data model of \<open>lib/types.ts\<close>\<close>

datatype media_type = Image | Video | Gif | Unknown

record media =
  url :: js_string
  media_type :: media_type

text \<open>The field \<open>id\<close> of the source is \<open>bookmark_id\<close> here (\<open>id\<close> is the identity of HOL).\<close>

record bookmark =
  bookmark_id :: js_string
  tweet_url :: js_string
  content :: js_string
  note_text :: "js_string option"
  tweeted_at :: js_string
  imported_at :: js_string
  author_handle :: js_string
  author_name :: js_string
  author_profile_url :: "js_string option"
  author_profile_image :: "js_string option"
  tags :: "js_string list"
  comments :: "js_string option"
  media :: "media list"
  is_favorite :: bool

section \<open>Link targets of a card (\<open>BookmarkCard.svelte\<close>)\<close>

text \<open>
  \<open>urlRegex = /(https?:\/\/[^\s]+)/g\<close>. A match at the head of \<open>s\<close> is the scheme
  \<open>http://\<close> or \<open>https://\<close> followed by the longest run, of at least one code unit, of
  code units outside \<open>\s\<close>. (After \<open>http\<close> the optional \<open>s\<close> is decided by the
  next code unit, so trying \<open>https://\<close> first is the regular expression's backtracking.)
\<close>

definition match_at :: "js_string \<Rightarrow> js_string option" where
  "match_at s =
     (let scheme =
            (if prefix (str ''https://'') s then Some (str ''https://'')
             else if prefix (str ''http://'') s then Some (str ''http://'')
             else None)
      in case scheme of
           None \<Rightarrow> None
         | Some p \<Rightarrow>
             (let body = takeWhile (\<lambda>c. \<not> is_space c) (drop (length p) s)
              in if body = [] then None else Some (p @ body)))"

text \<open>
  \<open>content.match(urlRegex)\<close> with the \<open>g\<close> flag: the matches from left to right, the
  search resuming after the end of each match. \<open>scan k s\<close> skips the \<open>k\<close> code units of
  \<open>s\<close> that the previous match still covers. No match gives \<open>null\<close>, which
  \<open>?? []\<close> turns into the empty array.
\<close>

fun scan :: "nat \<Rightarrow> js_string \<Rightarrow> js_string list" where
  "scan k [] = []"
| "scan (Suc k) (c # cs) = scan k cs"
| "scan 0 (c # cs) =
     (case match_at (c # cs) of
        Some m \<Rightarrow> m # scan (length m - 1) cs
      | None \<Rightarrow> scan 0 cs)"

definition match_urls :: "js_string \<Rightarrow> js_string list" where
  "match_urls s = scan 0 s"

text \<open>
  \<open>url.replace(/[,.!?]+$/, '')\<close>: the leftmost match of a run of the four punctuation
  marks that reaches the end of the string is the whole trailing run, which is removed.
\<close>

definition is_trailing_punct :: "nat \<Rightarrow> bool" where
  "is_trailing_punct c = (c \<in> set (str '',.!?''))"

definition strip_trailing :: "js_string \<Rightarrow> js_string" where
  "strip_trailing u = rev (dropWhile is_trailing_punct (rev u))"

text \<open>
  \<open>Array.from(new Set(xs))\<close>: a \<open>Set\<close> keeps its elements in the order of their first
  insertion, and adding an element it already has changes nothing.
\<close>

definition set_add :: "'a list \<Rightarrow> 'a \<Rightarrow> 'a list" where
  "set_add acc x = (if x \<in> set acc then acc else acc @ [x])"

definition array_from_set :: "'a list \<Rightarrow> 'a list" where
  "array_from_set xs = foldl set_add [] xs"

text \<open>
  The body of the arrow function \<open>() => Array.from(new Set(...))\<close>: the array that a call
  of the function returns.
\<close>

definition linkTargets_body :: "bookmark \<Rightarrow> js_string list" where
  "linkTargets_body b =
     array_from_set
       (filter (\<lambda>u. u \<noteq> tweet_url b)
          (map strip_trailing (match_urls (content b))))"

text \<open>
  The values that the template of the card reads: an array, or an arrow function without
  parameters. \<open>length\<close> of an array is the number of its elements, \<open>length\<close> of a
  function is the number of its parameters. \<open>{#each v as x}\<close> runs over the elements of
  an array; a value that is no array goes through \<open>Array.from\<close>, which makes the empty
  array of an object whose \<open>length\<close> is 0.
\<close>

datatype 'a js_value = Array "'a list" | Arrow0 "unit \<Rightarrow> 'a list"

fun js_length :: "'a js_value \<Rightarrow> nat" where
  "js_length (Array xs) = length xs"
| "js_length (Arrow0 f) = 0"

fun each_items :: "'a js_value \<Rightarrow> 'a list" where
  "each_items (Array xs) = xs"
| "each_items (Arrow0 f) = []"

text \<open>
  \<open>const linkTargets = $derived(() => ...)\<close>. The value of \<open>$derived(e)\<close> is the value
  of the expression \<open>e\<close> (it is \<open>$derived.by\<close> that calls a function), and here \<open>e\<close> is
  the arrow function: \<open>linkTargets\<close> is the function, which nothing in the component
  calls.
\<close>

definition linkTargets :: "bookmark \<Rightarrow> js_string js_value" where
  "linkTargets b = Arrow0 (\<lambda>u. linkTargets_body b)"

text \<open>
  The template:
  \<open>{#if linkTargets.length > 0} {#each linkTargets as target} <LinkPreview url={target} />\<close>.
  \<open>link_previews\<close> lists the URLs for which the card renders a preview.
\<close>

definition link_previews :: "bookmark \<Rightarrow> js_string list" where
  "link_previews b =
     (if 0 < js_length (linkTargets b) then each_items (linkTargets b) else [])"

definition example_card :: bookmark where
  "example_card =
     \<lparr> bookmark_id = str ''7'',
       tweet_url = str ''https://t.co/x'',
       content = str ''see https://a.io, https://a.io! and https://t.co/x.'',
       note_text = None,
       tweeted_at = str ''2024-05-01T14:30:00Z'',
       imported_at = str ''2024-05-02T10:00:00Z'',
       author_handle = str ''rustlang'',
       author_name = str ''Rust Language'',
       author_profile_url = None,
       author_profile_image = None,
       tags = [],
       comments = None,
       media = [],
       is_favorite = False \<rparr>"

section \<open>Stores (\<open>$lib/stores/bookmarks.svelte\<close>)\<close>

text \<open>
  The stores and the API module are listed in the sources after the page
  \<open>routes/+page.svelte\<close>, which imports them.
\<close>

text \<open>
  \<open>FeedState\<close>, the pagination metadata of the feed. Counts, offsets and page sizes are
  natural numbers here. The settings page, whose number input can put any number into
  \<open>limit\<close>, is not part of the model.
\<close>

record FeedState =
  offset :: nat
  limit :: nat
  total :: nat
  hasMore :: bool

text \<open>\<open>feedMeta.reset(limit = 50)\<close>; the caller's default is written at the call.\<close>

definition feed_reset :: "nat \<Rightarrow> FeedState" where
  "feed_reset lim = \<lparr> offset = 0, limit = lim, total = 0, hasMore = True \<rparr>"

text \<open>\<open>PaginatedResponse<Bookmark>\<close> of \<open>lib/types.ts\<close>, the reply of \<open>get_bookmarks\<close>.\<close>

record PaginatedResponse =
  resp_items :: "bookmark list"
  resp_total :: nat
  resp_offset :: nat
  resp_limit :: nat
  has_more :: bool

record LinkPreview =
  preview_url :: js_string
  final_url :: js_string
  title :: "js_string option"
  description :: "js_string option"
  image_url :: "js_string option"
  site_name :: "js_string option"

section \<open>The bridge to the backend (\<open>$lib/api\<close>)\<close>

text \<open>
  The commands that \<open>invoke\<close> sends, with their arguments in the order of the source's
  argument objects. An absent (\<open>undefined\<close>) argument is \<open>None\<close>.
\<close>

datatype command =
    Get_bookmarks nat nat
  | Search_bookmarks "js_string option" "js_string option" nat
  | Search_with_filters "js_string option" "js_string option" "js_string option"
      "js_string option" "js_string option" bool "bool option" nat
  | Get_favorites nat
  | Toggle_favorite js_string
  | Delete_bookmark js_string
  | Import_file js_string
  | Fetch_link_preview js_string

text \<open>
  What a rejected \<open>invoke\<close> carries: an error of the backend, or \<open>BadCommand\<close> for
  a command that the bridge cannot serve. The frontend never looks into it. A promise is
  settled as resolved or rejected; \<open>invoke\<close> settles as \<open>Inr\<close> (resolved) or \<open>Inl\<close>
  (rejected).
\<close>

datatype invoke_error =
  NotFound | StorageBusy | StorageIOError | UnrecognizedFormat | BadCommand

datatype 'a promise = Resolved 'a | Rejected invoke_error

text \<open>
  The state that the functions of the API module read and write: the stores \<open>bookmarks\<close>,
  \<open>isLoading\<close> and \<open>feedMeta\<close>, the module's \<open>previewCache\<close>, and the log of the
  commands sent through \<open>invoke\<close>, oldest first. Each call of a function of the API runs
  to its end before the next one starts.
\<close>

record app =
  bookmarks :: "bookmark list"
  isLoading :: bool
  feedMeta :: FeedState
  previewCache :: "js_string \<rightharpoonup> LinkPreview option promise"
  invoked :: "command list"

definition initial_app :: app where
  "initial_app =
     \<lparr> bookmarks = [], isLoading = False,
       feedMeta = \<lparr> offset = 0, limit = 50, total = 0, hasMore = True \<rparr>,
       previewCache = Map.empty, invoked = [] \<rparr>"

definition send :: "command \<Rightarrow> app \<Rightarrow> app" where
  "send c st = st\<lparr> invoked := invoked st @ [c] \<rparr>"

text \<open>
  \<open>mockBookmarks\<close>, the data of the development mode without Tauri. The crab emoji of the
  first content is the surrogate pair D83E DD80. The mock data are a constant here, and the
  list of the store holds values: a flag set in the list does not reach the mock data.
\<close>

definition mockBookmarks :: "bookmark list" where
  "mockBookmarks =
     [ \<lparr> bookmark_id = str ''1'',
         tweet_url = str ''https://twitter.com/rustlang/status/123'',
         content = str ''Rust 2024 edition is here! '' @ [55358, 56704]
           @ str '' Check out the new features including improved async support and better error messages.'',
         note_text = None,
         tweeted_at = str ''2024-05-01T14:30:00Z'',
         imported_at = str ''2024-05-02T10:00:00Z'',
         author_handle = str ''rustlang'',
         author_name = str ''Rust Language'',
         author_profile_url = Some (str ''https://twitter.com/rustlang''),
         author_profile_image = Some (str ''https://pbs.twimg.com/profile_images/1234/rust_normal.jpg''),
         tags = [str ''technology'', str ''programming''],
         comments = None,
         media = [],
         is_favorite = True \<rparr>,
       \<lparr> bookmark_id = str ''2'',
         tweet_url = str ''https://twitter.com/svaborern/status/456'',
         content = str ''Svelte 5 runes are a game changer. The new reactivity system is so much simpler to understand.'',
         note_text = None,
         tweeted_at = str ''2024-04-28T09:15:00Z'',
         imported_at = str ''2024-05-02T10:00:00Z'',
         author_handle = str ''svaborern'',
         author_name = str ''Svelte Enthusiast'',
         author_profile_url = None,
         author_profile_image = None,
         tags = [str ''technology'', str ''webdev''],
         comments = None,
         media = [],
         is_favorite = False \<rparr> ]"

text \<open>
  \<open>LoadOptions\<close>: an absent \<open>offset\<close> or \<open>limit\<close> is \<open>None\<close>; an absent \<open>reset\<close> is
  falsy, as \<open>False\<close> is.
\<close>

record LoadOptions =
  opt_offset :: "nat option"
  opt_limit :: "nat option"
  opt_reset :: bool

text \<open>
  \<open>loadBookmarks\<close>. \<open>isTauri\<close> is the module's constant; \<open>invoke\<close> is the source's \<open>invoke\<close> for the
  command \<open>get_bookmarks\<close>. The fields of \<open>feedMeta.value\<close> are numbers, never
  \<open>null\<close> or \<open>undefined\<close>, so the last fallbacks \<open>?? 50\<close> and \<open>?? 0\<close> are never
  taken. The \<open>catch\<close> logs the error and, for the first page, empties the list.
\<close>

definition loadBookmarks ::
  "bool \<Rightarrow> (command \<Rightarrow> invoke_error + PaginatedResponse) \<Rightarrow> LoadOptions \<Rightarrow> app \<Rightarrow> app" where
  "loadBookmarks isTauri invoke options st =
     (let lim = (case opt_limit options of Some l \<Rightarrow> l | None \<Rightarrow> limit (feedMeta st));
          off = (if opt_reset options then 0
                 else (case opt_offset options of
                         Some k \<Rightarrow> k
                       | None \<Rightarrow> offset (feedMeta st)));
          st1 = (if opt_reset options
                 then st\<lparr> bookmarks := [], feedMeta := feed_reset lim \<rparr>
                 else st);
          st2 = (if off = 0 then st1\<lparr> isLoading := True \<rparr> else st1);
          st3 =
            (if isTauri then
               (let st2' = send (Get_bookmarks off lim) st2 in
                case invoke (Get_bookmarks off lim) of
                  Inr response \<Rightarrow>
                    st2'\<lparr> bookmarks :=
                            (if off = 0 then resp_items response
                             else bookmarks st2' @ resp_items response),
                          feedMeta :=
                            \<lparr> offset = off + length (resp_items response),
                              limit = lim,
                              total = resp_total response,
                              hasMore = has_more response \<rparr> \<rparr>
                | Inl e \<Rightarrow>
                    (if off = 0 then st2'\<lparr> bookmarks := [] \<rparr> else st2'))
             else
               st2\<lparr> bookmarks :=
                      (if off = 0 then mockBookmarks else bookmarks st2 @ mockBookmarks),
                    feedMeta :=
                      \<lparr> offset = off + length mockBookmarks,
                        limit = lim,
                        total = length mockBookmarks,
                        hasMore = False \<rparr> \<rparr>)
      in if off = 0 then st3\<lparr> isLoading := False \<rparr> else st3)"

definition loadMoreBookmarks ::
  "bool \<Rightarrow> (command \<Rightarrow> invoke_error + PaginatedResponse) \<Rightarrow> app \<Rightarrow> app" where
  "loadMoreBookmarks isTauri invoke st =
     (if \<not> hasMore (feedMeta st) \<or> isLoading st then st
      else loadBookmarks isTauri invoke
             \<lparr> opt_offset = Some (offset (feedMeta st)),
               opt_limit = Some (limit (feedMeta st)),
               opt_reset = False \<rparr> st)"

text \<open>
  The two turns of \<open>loadBookmarks\<close>. \<open>loadBookmarks_begin\<close> is the code up to the
  \<open>await\<close>: it leaves the load pending, with the offset and the limit that it computed,
  and with Tauri the command is sent. \<open>loadBookmarks_end\<close> is the code after the
  \<open>await\<close>: it runs later, on the stores as they are then, with the outcome of the
  command. Other calls of the API can run between the two turns.
\<close>

record pending_load =
  load_offset :: nat
  load_limit :: nat

definition loadBookmarks_begin :: "bool \<Rightarrow> LoadOptions \<Rightarrow> app \<Rightarrow> pending_load \<times> app" where
  "loadBookmarks_begin isTauri options st =
     (let lim = (case opt_limit options of Some l \<Rightarrow> l | None \<Rightarrow> limit (feedMeta st));
          off = (if opt_reset options then 0
                 else (case opt_offset options of
                         Some k \<Rightarrow> k
                       | None \<Rightarrow> offset (feedMeta st)));
          st1 = (if opt_reset options
                 then st\<lparr> bookmarks := [], feedMeta := feed_reset lim \<rparr>
                 else st);
          st2 = (if off = 0 then st1\<lparr> isLoading := True \<rparr> else st1)
      in (\<lparr> load_offset = off, load_limit = lim \<rparr>,
          if isTauri then send (Get_bookmarks off lim) st2 else st2))"

definition loadBookmarks_end ::
  "bool \<Rightarrow> invoke_error + PaginatedResponse \<Rightarrow> pending_load \<Rightarrow> app \<Rightarrow> app" where
  "loadBookmarks_end isTauri outcome p st =
     (let off = load_offset p;
          lim = load_limit p;
          st3 =
            (if isTauri then
               (case outcome of
                  Inr response \<Rightarrow>
                    st\<lparr> bookmarks :=
                          (if off = 0 then resp_items response
                           else bookmarks st @ resp_items response),
                        feedMeta :=
                          \<lparr> offset = off + length (resp_items response),
                            limit = lim,
                            total = resp_total response,
                            hasMore = has_more response \<rparr> \<rparr>
                | Inl e \<Rightarrow>
                    (if off = 0 then st\<lparr> bookmarks := [] \<rparr> else st))
             else
               st\<lparr> bookmarks :=
                     (if off = 0 then mockBookmarks else bookmarks st @ mockBookmarks),
                   feedMeta :=
                     \<lparr> offset = off + length mockBookmarks,
                       limit = lim,
                       total = length mockBookmarks,
                       hasMore = False \<rparr> \<rparr>)
      in if off = 0 then st3\<lparr> isLoading := False \<rparr> else st3)"

text \<open>
  The first turn of \<open>loadMoreBookmarks\<close>: the guard, and behind it the first turn of
  \<open>loadBookmarks\<close>. \<open>None\<close> says that the call has returned; otherwise the load is
  pending and \<open>loadBookmarks_end\<close> completes it.
\<close>

definition loadMoreBookmarks_begin :: "bool \<Rightarrow> app \<Rightarrow> pending_load option \<times> app" where
  "loadMoreBookmarks_begin isTauri st =
     (if \<not> hasMore (feedMeta st) \<or> isLoading st then (None, st)
      else (let r = loadBookmarks_begin isTauri
                      \<lparr> opt_offset = Some (offset (feedMeta st)),
                        opt_limit = Some (limit (feedMeta st)),
                        opt_reset = False \<rparr> st
            in (Some (fst r), snd r)))"

text \<open>
  \<open>x || undefined\<close> on an optional string: \<open>undefined\<close>, \<open>null\<close> and the empty
  string are falsy. \<open>x || false\<close> on an optional boolean.
\<close>

definition or_undefined :: "js_string option \<Rightarrow> js_string option" where
  "or_undefined x = (case x of None \<Rightarrow> None | Some s \<Rightarrow> if s = [] then None else Some s)"

definition or_false :: "bool option \<Rightarrow> bool" where
  "or_false x = (case x of None \<Rightarrow> False | Some b \<Rightarrow> b)"

text \<open>
  \<open>String.prototype.toLowerCase\<close> follows the case mappings of Unicode, which are not
  part of the sources: it is a parameter, \<open>toLowerCase\<close>, of the functions that call it.
  \<open>includes\<close> is \<open>sublist\<close>: the argument occurs as a contiguous piece.
\<close>

text \<open>
  What the three search-style functions do with a list they obtained: \<open>bookmarks.set\<close>,
  \<open>feedMeta.reset(100)\<close>, then \<open>feedMeta.update\<close> of \<open>offset\<close>, \<open>total\<close> and
  \<open>hasMore\<close>.
\<close>

definition show_results :: "bookmark list \<Rightarrow> app \<Rightarrow> app" where
  "show_results response st =
     st\<lparr> bookmarks := response,
         feedMeta := (feed_reset 100)
           \<lparr> offset := length response, total := length response, hasMore := False \<rparr> \<rparr>"

text \<open>
  \<open>searchBookmarks(query, tag)\<close>. The \<open>catch\<close> only logs; \<open>finally\<close> clears
  \<open>isLoading\<close>.
\<close>

definition searchBookmarks ::
  "bool \<Rightarrow> (js_string \<Rightarrow> js_string) \<Rightarrow> (command \<Rightarrow> invoke_error + bookmark list)
     \<Rightarrow> js_string \<Rightarrow> js_string option \<Rightarrow> app \<Rightarrow> app" where
  "searchBookmarks isTauri toLowerCase invoke query tag st =
     (let st1 = st\<lparr> isLoading := True \<rparr>;
          st2 =
            (if isTauri then
               (let c = Search_bookmarks (or_undefined (Some query)) (or_undefined tag) 100;
                    st1' = send c st1
                in case invoke c of
                     Inr response \<Rightarrow> show_results response st1'
                   | Inl e \<Rightarrow> st1')
             else
               (let filtered0 = mockBookmarks;
                    filtered1 =
                      (if query \<noteq> [] then
                         (let q = toLowerCase query
                          in filter (\<lambda>b. sublist q (toLowerCase (content b))
                                        \<or> sublist q (toLowerCase (author_handle b))
                                        \<or> sublist q (toLowerCase (author_name b)))
                               filtered0)
                       else filtered0);
                    filtered2 =
                      (case or_undefined tag of
                         Some t \<Rightarrow> filter (\<lambda>b. t \<in> set (tags b)) filtered1
                       | None \<Rightarrow> filtered1)
                in show_results filtered2 st1))
      in st2\<lparr> isLoading := False \<rparr>)"

definition loadFavorites ::
  "bool \<Rightarrow> (command \<Rightarrow> invoke_error + bookmark list) \<Rightarrow> app \<Rightarrow> app" where
  "loadFavorites isTauri invoke st =
     (let st1 = st\<lparr> isLoading := True \<rparr>;
          st2 =
            (if isTauri then
               (let st1' = send (Get_favorites 100) st1
                in case invoke (Get_favorites 100) of
                     Inr response \<Rightarrow> show_results response st1'
                   | Inl e \<Rightarrow> st1')
             else show_results (filter is_favorite mockBookmarks) st1)
      in st2\<lparr> isLoading := False \<rparr>)"

text \<open>The argument of \<open>searchWithFilters\<close>; every field is optional.\<close>

record filters =
  query :: "js_string option"
  tag :: "js_string option"
  author :: "js_string option"
  fromDate :: "js_string option"
  toDate :: "js_string option"
  favoritesOnly :: "bool option"
  hasMedia :: "bool option"

definition searchWithFilters ::
  "bool \<Rightarrow> (js_string \<Rightarrow> js_string) \<Rightarrow> (command \<Rightarrow> invoke_error + bookmark list)
     \<Rightarrow> filters \<Rightarrow> app \<Rightarrow> app" where
  "searchWithFilters isTauri toLowerCase invoke fs st =
     (let st1 = st\<lparr> isLoading := True \<rparr>;
          st2 =
            (if isTauri then
               (let c = Search_with_filters
                          (or_undefined (query fs)) (or_undefined (tag fs))
                          (or_undefined (author fs)) (or_undefined (fromDate fs))
                          (or_undefined (toDate fs)) (or_false (favoritesOnly fs))
                          (hasMedia fs) 100;
                    st1' = send c st1
                in case invoke c of
                     Inr response \<Rightarrow> show_results response st1'
                   | Inl e \<Rightarrow> st1')
             else
               (let filtered0 = mockBookmarks;
                    filtered1 =
                      (case or_undefined (query fs) of
                         Some s \<Rightarrow>
                           (let q = toLowerCase s
                            in filter (\<lambda>b. sublist q (toLowerCase (content b))
                                          \<or> sublist q (toLowerCase (author_handle b)))
                                 filtered0)
                       | None \<Rightarrow> filtered0);
                    filtered2 =
                      (if or_false (favoritesOnly fs) then filter is_favorite filtered1
                       else filtered1)
                in show_results filtered2 st1))
      in st2\<lparr> isLoading := False \<rparr>)"

text \<open>
  \<open>findIndex\<close>: the index of the first element that satisfies the test; \<open>None\<close> is the
  source's \<open>-1\<close>.
\<close>

fun findIndex :: "('a \<Rightarrow> bool) \<Rightarrow> 'a list \<Rightarrow> nat option" where
  "findIndex P [] = None"
| "findIndex P (x # xs) =
     (if P x then Some 0 else map_option Suc (findIndex P xs))"

text \<open>
  \<open>toggleFavorite(id)\<close> returns a promise of the new state. With Tauri a rejected
  \<open>invoke\<close> rejects the promise before the list is touched. Without Tauri an id that the
  list does not hold gives \<open>false\<close>.
\<close>

definition toggleFavorite ::
  "bool \<Rightarrow> (command \<Rightarrow> invoke_error + bool) \<Rightarrow> js_string \<Rightarrow> app \<Rightarrow> bool promise \<times> app" where
  "toggleFavorite isTauri invoke i st =
     (if isTauri then
        (let st1 = send (Toggle_favorite i) st
         in case invoke (Toggle_favorite i) of
              Inl e \<Rightarrow> (Rejected e, st1)
            | Inr newStatus \<Rightarrow>
                (let items = bookmarks st1
                 in case findIndex (\<lambda>b. bookmark_id b = i) items of
                      Some idx \<Rightarrow>
                        (Resolved newStatus,
                         st1\<lparr> bookmarks :=
                                 items[idx := (items ! idx)\<lparr> is_favorite := newStatus \<rparr>] \<rparr>)
                    | None \<Rightarrow> (Resolved newStatus, st1)))
      else
        (let items = bookmarks st
         in case findIndex (\<lambda>b. bookmark_id b = i) items of
              Some idx \<Rightarrow>
                (let items' = items[idx := (items ! idx)\<lparr> is_favorite := \<not> is_favorite (items ! idx) \<rparr>]
                 in (Resolved (is_favorite (items' ! idx)), st\<lparr> bookmarks := items' \<rparr>))
            | None \<Rightarrow> (Resolved False, st)))"

text \<open>
  \<open>fetchLinkPreview(url)\<close>. The task is an asynchronous function whose whole body is
  inside \<open>try\<close>: a rejected \<open>invoke\<close> is caught and the task resolves to \<open>null\<close>
  (\<open>None\<close>). The task is put into \<open>previewCache\<close> in the same turn that creates it.
  The command is sent with Tauri only.
\<close>

definition preview_task ::
  "bool \<Rightarrow> (command \<Rightarrow> invoke_error + LinkPreview option) \<Rightarrow> js_string
     \<Rightarrow> LinkPreview option promise" where
  "preview_task isTauri invoke u =
     (if isTauri then
        (case invoke (Fetch_link_preview u) of
           Inr p \<Rightarrow> Resolved p
         | Inl e \<Rightarrow> Resolved None)
      else Resolved None)"

definition fetchLinkPreview ::
  "bool \<Rightarrow> (command \<Rightarrow> invoke_error + LinkPreview option) \<Rightarrow> js_string \<Rightarrow> app
     \<Rightarrow> LinkPreview option promise \<times> app" where
  "fetchLinkPreview isTauri invoke u st =
     (case previewCache st u of
        Some task \<Rightarrow> (task, st)
      | None \<Rightarrow>
          (let task = preview_task isTauri invoke u;
               st1 = (if isTauri then send (Fetch_link_preview u) st else st)
           in (task, st1\<lparr> previewCache := (previewCache st1)(u \<mapsto> task) \<rparr>)))"

text \<open>
  \<open>deleteBookmark(id)\<close>: with Tauri a rejected \<open>invoke\<close> rejects the promise and the
  list is kept; \<open>bookmarks.remove\<close> filters the list.
\<close>

definition deleteBookmark ::
  "bool \<Rightarrow> (command \<Rightarrow> invoke_error + unit) \<Rightarrow> js_string \<Rightarrow> app \<Rightarrow> app" where
  "deleteBookmark isTauri invoke i st =
     (if isTauri then
        (let st1 = send (Delete_bookmark i) st
         in case invoke (Delete_bookmark i) of
              Inl e \<Rightarrow> st1
            | Inr u \<Rightarrow> st1\<lparr> bookmarks := filter (\<lambda>b. bookmark_id b \<noteq> i) (bookmarks st1) \<rparr>)
      else st\<lparr> bookmarks := filter (\<lambda>b. bookmark_id b \<noteq> i) (bookmarks st) \<rparr>)"

text \<open>
  \<open>importFile(path)\<close> returns a promise of the number of imported rows. With Tauri a
  rejected \<open>invoke\<close> rejects it before anything is reloaded; otherwise the list is
  reloaded from the start (and the statistics, which are not part of this state). Without
  Tauri the promise resolves to 42.
\<close>

definition importFile ::
  "bool \<Rightarrow> (command \<Rightarrow> invoke_error + nat) \<Rightarrow> (command \<Rightarrow> invoke_error + PaginatedResponse)
     \<Rightarrow> js_string \<Rightarrow> app \<Rightarrow> nat promise \<times> app" where
  "importFile isTauri invoke invoke_page path st =
     (if isTauri then
        (let st1 = send (Import_file path) st
         in case invoke (Import_file path) of
              Inl e \<Rightarrow> (Rejected e, st1)
            | Inr imported \<Rightarrow>
                (Resolved imported,
                 loadBookmarks isTauri invoke_page
                   \<lparr> opt_offset = None, opt_limit = None, opt_reset = True \<rparr> st1))
      else (Resolved 42, st))"

text \<open>
  A call of the API with the behaviour of \<open>invoke\<close> at that call, and a run of calls
  one after the other. \<open>loadStats\<close> and \<open>openInBrowser\<close> do not touch this state and
  are left out.
\<close>

datatype api_call =
    Call_loadBookmarks "command \<Rightarrow> invoke_error + PaginatedResponse" LoadOptions
  | Call_loadMoreBookmarks "command \<Rightarrow> invoke_error + PaginatedResponse"
  | Call_searchBookmarks "command \<Rightarrow> invoke_error + bookmark list" js_string "js_string option"
  | Call_searchWithFilters "command \<Rightarrow> invoke_error + bookmark list" filters
  | Call_loadFavorites "command \<Rightarrow> invoke_error + bookmark list"
  | Call_toggleFavorite "command \<Rightarrow> invoke_error + bool" js_string
  | Call_deleteBookmark "command \<Rightarrow> invoke_error + unit" js_string
  | Call_importFile "command \<Rightarrow> invoke_error + nat"
      "command \<Rightarrow> invoke_error + PaginatedResponse" js_string
  | Call_fetchLinkPreview "command \<Rightarrow> invoke_error + LinkPreview option" js_string

fun api_step :: "bool \<Rightarrow> (js_string \<Rightarrow> js_string) \<Rightarrow> api_call \<Rightarrow> app \<Rightarrow> app" where
  "api_step isTauri toLowerCase (Call_loadBookmarks invoke options) st = loadBookmarks isTauri invoke options st"
| "api_step isTauri toLowerCase (Call_loadMoreBookmarks invoke) st = loadMoreBookmarks isTauri invoke st"
| "api_step isTauri toLowerCase (Call_searchBookmarks invoke q t) st = searchBookmarks isTauri toLowerCase invoke q t st"
| "api_step isTauri toLowerCase (Call_searchWithFilters invoke fs) st = searchWithFilters isTauri toLowerCase invoke fs st"
| "api_step isTauri toLowerCase (Call_loadFavorites invoke) st = loadFavorites isTauri invoke st"
| "api_step isTauri toLowerCase (Call_toggleFavorite invoke i) st = snd (toggleFavorite isTauri invoke i st)"
| "api_step isTauri toLowerCase (Call_deleteBookmark invoke i) st = deleteBookmark isTauri invoke i st"
| "api_step isTauri toLowerCase (Call_importFile invoke invoke_page path) st =
     snd (importFile isTauri invoke invoke_page path st)"
| "api_step isTauri toLowerCase (Call_fetchLinkPreview invoke u) st = snd (fetchLinkPreview isTauri invoke u st)"

definition api_run ::
  "bool \<Rightarrow> (js_string \<Rightarrow> js_string) \<Rightarrow> api_call list \<Rightarrow> app \<Rightarrow> app" where
  "api_run isTauri toLowerCase calls st = fold (api_step isTauri toLowerCase) calls st"

section \<open>The backend, as the specification describes it\<close>

text \<open>
  The native backend (ingestion, storage, query engine, command surface) is not among the
  sources. The definitions of this section follow the specification. Timestamps are the
  normalised UTC ISO-8601 strings of the specification, compared as strings; a bookmark
  whose timestamp could not be parsed is not modelled. The full-text index is a parameter:
  \<open>text_match q b\<close> tells whether \<open>b\<close> matches the query \<open>q\<close>, \<open>relevance q b\<close> is its
  rank (greater is better).
\<close>

type_synonym matcher = "js_string \<Rightarrow> bookmark \<Rightarrow> bool"
type_synonym ranker = "js_string \<Rightarrow> bookmark \<Rightarrow> nat"

text \<open>
  Modelled from the spec: the persistent state of the Storage Engine, the stored rows and
  the number of ids assigned so far (an id is never reused).
\<close>

record database =
  rows :: "bookmark list"
  next_id :: nat

text \<open>
  Modelled from the spec: the order of \<open>list\<close>, by \<open>tweeted_at\<close> descending, ties broken
  by \<open>id\<close> ascending.
\<close>

definition precedes :: "bookmark \<Rightarrow> bookmark \<Rightarrow> bool" where
  "precedes a b =
     (tweeted_at b < tweeted_at a
      \<or> (tweeted_at a = tweeted_at b \<and> bookmark_id a \<le> bookmark_id b))"

text \<open>Sorting by a relation, by insertion.\<close>

fun insert_by :: "('a \<Rightarrow> 'a \<Rightarrow> bool) \<Rightarrow> 'a \<Rightarrow> 'a list \<Rightarrow> 'a list" where
  "insert_by le x [] = [x]"
| "insert_by le x (y # ys) = (if le x y then x # y # ys else y # insert_by le x ys)"

definition sort_by :: "('a \<Rightarrow> 'a \<Rightarrow> bool) \<Rightarrow> 'a list \<Rightarrow> 'a list" where
  "sort_by le xs = foldr (insert_by le) xs []"

text \<open>Modelled from the spec: the stored bookmarks in the order of \<open>list\<close>.\<close>

definition list_order :: "bookmark list \<Rightarrow> bookmark list" where
  "list_order bs = sort_by precedes bs"


text \<open>
  Modelled from the spec: the input validation of the Command Surface, \<open>limit\<close> bounded to
  a maximum. The specification does not give the maximum; it is the parameter
  \<open>max_limit\<close>.
\<close>

definition validate_limit :: "nat \<Rightarrow> nat \<Rightarrow> nat" where
  "validate_limit max_limit lim = min lim max_limit"


text \<open>
  Modelled from the spec: the filter specification of the Query Engine,
  \<open>{text, tag, author, date_from, date_to, favorites_only, has_media}\<close>, as the
  conjunction of the provided options: free text through the full-text index, exact tag,
  author handle, inclusive range on \<open>tweeted_at\<close>, favorites only, presence of media.
\<close>

definition satisfies ::
  "matcher \<Rightarrow> js_string option \<Rightarrow> js_string option \<Rightarrow> js_string option \<Rightarrow> js_string option
     \<Rightarrow> js_string option \<Rightarrow> bool \<Rightarrow> bool option \<Rightarrow> bookmark \<Rightarrow> bool" where
  "satisfies text_match txt tg auth date_from date_to favorites_only has_media b =
     ((case txt of None \<Rightarrow> True | Some q \<Rightarrow> text_match q b)
      \<and> (case tg of None \<Rightarrow> True | Some t \<Rightarrow> t \<in> set (tags b))
      \<and> (case auth of None \<Rightarrow> True | Some a \<Rightarrow> author_handle b = a)
      \<and> (case date_from of None \<Rightarrow> True | Some d \<Rightarrow> d \<le> tweeted_at b)
      \<and> (case date_to of None \<Rightarrow> True | Some d \<Rightarrow> tweeted_at b \<le> d)
      \<and> (if favorites_only then is_favorite b else True)
      \<and> (case has_media of None \<Rightarrow> True | Some m \<Rightarrow> (media b \<noteq> []) = m))"

text \<open>
  Modelled from the spec: the order of a result of the Query Engine. With a text, by
  relevance first and then in the order of \<open>list\<close>; without, in the order of \<open>list\<close>.
\<close>

definition result_order :: "ranker \<Rightarrow> js_string option \<Rightarrow> bookmark list \<Rightarrow> bookmark list" where
  "result_order relevance txt bs =
     (case txt of
        None \<Rightarrow> list_order bs
      | Some q \<Rightarrow>
          sort_by (\<lambda>a b. relevance q b < relevance q a
                         \<or> (relevance q a = relevance q b \<and> precedes a b)) bs)"

text \<open>
  Modelled from the spec: the command \<open>search_with_filters\<close>. The result is returned in
  one call and capped at the validated limit.
\<close>

definition search_with_filters ::
  "matcher \<Rightarrow> ranker \<Rightarrow> nat \<Rightarrow> database \<Rightarrow> js_string option \<Rightarrow> js_string option
     \<Rightarrow> js_string option \<Rightarrow> js_string option \<Rightarrow> js_string option \<Rightarrow> bool \<Rightarrow> bool option
     \<Rightarrow> nat \<Rightarrow> bookmark list" where
  "search_with_filters text_match relevance max_limit db txt tg auth date_from date_to
       favorites_only has_media lim =
     take (validate_limit max_limit lim)
       (result_order relevance txt
          (filter (satisfies text_match txt tg auth date_from date_to favorites_only has_media)
             (rows db)))"

text \<open>
  Modelled from the spec: the command \<open>search_bookmarks(query?, tag?, limit)\<close>, the
  query with the other options absent.
\<close>

definition search_bookmarks ::
  "matcher \<Rightarrow> ranker \<Rightarrow> nat \<Rightarrow> database \<Rightarrow> js_string option \<Rightarrow> js_string option \<Rightarrow> nat
     \<Rightarrow> bookmark list" where
  "search_bookmarks text_match relevance max_limit db txt tg lim =
     search_with_filters text_match relevance max_limit db txt tg None None None False None lim"

text \<open>
  Modelled from the spec: the command \<open>get_favorites(limit)\<close>, the query for the
  favorites alone.
\<close>

definition get_favorites :: "matcher \<Rightarrow> ranker \<Rightarrow> nat \<Rightarrow> database \<Rightarrow> nat \<Rightarrow> bookmark list" where
  "get_favorites text_match relevance max_limit db lim =
     search_with_filters text_match relevance max_limit db None None None None None True None lim"

text \<open>
  Modelled from the spec: the command \<open>toggle_favorite(id) -> new_boolean_state\<close> over
  \<open>set_favorite\<close> of the Storage Engine; \<open>NotFound\<close> when no row has the id.
\<close>

definition toggle_favorite :: "database \<Rightarrow> js_string \<Rightarrow> invoke_error + bool \<times> database" where
  "toggle_favorite db i =
     (case find (\<lambda>b. bookmark_id b = i) (rows db) of
        None \<Rightarrow> Inl NotFound
      | Some r \<Rightarrow>
          Inr (\<not> is_favorite r,
               db\<lparr> rows := map (\<lambda>b. if bookmark_id b = i
                                     then b\<lparr> is_favorite := \<not> is_favorite r \<rparr> else b)
                              (rows db) \<rparr>))"

text \<open>
  Modelled from the spec: the reason codes of a row error of a Format Parser. A row
  error carries the row index, the reason code and the offending fragment. A parser turns
  a file into a sequence of results, a bookmark or a row error for each row.
\<close>

datatype reason_code = MissingField | UnparsableDate | MalformedMedia | EncodingError

text \<open>Modelled from the spec: the row error.\<close>

record RowError =
  row_index :: nat
  reason :: reason_code
  fragment :: js_string

text \<open>Modelled from the spec: the result of a parser for one row.\<close>

type_synonym parsed_row = "RowError + bookmark"

text \<open>
  Modelled from the spec: what an import returns, the total of rows seen, the rows
  imported, the rows skipped as duplicates and the rows rejected with their errors.
\<close>

record import_summary =
  total_rows :: nat
  rows_imported :: nat
  rows_skipped_duplicate :: nat
  rows_rejected :: "RowError list"

text \<open>Modelled from the spec: the import mode.\<close>

datatype import_mode = Normal | DryRun

text \<open>
  Modelled from the spec: the Ingestion Pipeline on one parsed row. A row error is
  collected. A valid record whose \<open>tweet_url\<close> is already stored is skipped as a
  duplicate; another one is committed whole, with a fresh id (\<open>id_of\<close> renders the
  counter; the specification does not fix the format) and the time of the import.
\<close>

definition ingest_row ::
  "(nat \<Rightarrow> js_string) \<Rightarrow> js_string \<Rightarrow> parsed_row \<Rightarrow> database \<times> import_summary
     \<Rightarrow> database \<times> import_summary" where
  "ingest_row id_of now r s =
     (let db = fst s;
          sm = (snd s)\<lparr> total_rows := total_rows (snd s) + 1 \<rparr>
      in case r of
           Inl err \<Rightarrow> (db, sm\<lparr> rows_rejected := rows_rejected sm @ [err] \<rparr>)
         | Inr b \<Rightarrow>
             (if tweet_url b \<in> set (map tweet_url (rows db))
              then (db, sm\<lparr> rows_skipped_duplicate := rows_skipped_duplicate sm + 1 \<rparr>)
              else (db\<lparr> rows := rows db
                            @ [b\<lparr> bookmark_id := id_of (next_id db), imported_at := now \<rparr>],
                        next_id := next_id db + 1 \<rparr>,
                    sm\<lparr> rows_imported := rows_imported sm + 1 \<rparr>)))"

text \<open>
  Modelled from the spec: commits happen in batches of a fixed size, each batch in one
  transaction. Storage failures are not modelled, so a batch always commits.
\<close>

definition commit_batch ::
  "(nat \<Rightarrow> js_string) \<Rightarrow> js_string \<Rightarrow> parsed_row list \<Rightarrow> database \<times> import_summary
     \<Rightarrow> database \<times> import_summary" where
  "commit_batch id_of now batch s = fold (ingest_row id_of now) batch s"

text \<open>
  Modelled from the spec: the rows of a file cut into batches of \<open>n\<close> rows, the last
  one shorter (a size of 0 is taken as 1).
\<close>

fun batches :: "nat \<Rightarrow> 'a list \<Rightarrow> 'a list list" where
  "batches n [] = []"
| "batches n (x # xs) = (x # take (n - 1) xs) # batches n (drop (n - 1) xs)"

text \<open>
  Modelled from the spec: the summary before the first row. The import of the parsed
  rows of a file follows; its dry-run does the same work and writes nothing.
\<close>

definition empty_summary :: import_summary where
  "empty_summary =
     \<lparr> total_rows = 0, rows_imported = 0, rows_skipped_duplicate = 0, rows_rejected = [] \<rparr>"

text \<open>
  Modelled from the spec: the batches are committed one after the other, starting from
  the empty summary.
\<close>

definition import_rows ::
  "(nat \<Rightarrow> js_string) \<Rightarrow> js_string \<Rightarrow> nat \<Rightarrow> import_mode \<Rightarrow> parsed_row list \<Rightarrow> database
     \<Rightarrow> database \<times> import_summary" where
  "import_rows id_of now batch_size mode parsed db =
     (let r = fold (commit_batch id_of now) (batches batch_size parsed) (db, empty_summary)
      in (if mode = DryRun then db else fst r, snd r))"

text \<open>
  Modelled from the spec: \<open>import_file\<close>. A file whose format cannot be determined
  (\<open>None\<close>) is the fatal error \<open>UnrecognizedFormat\<close>, with no effect.
\<close>

definition import_file ::
  "(nat \<Rightarrow> js_string) \<Rightarrow> js_string \<Rightarrow> nat \<Rightarrow> import_mode \<Rightarrow> parsed_row list option
     \<Rightarrow> database \<Rightarrow> invoke_error + database \<times> import_summary" where
  "import_file id_of now batch_size mode input db =
     (case input of
        None \<Rightarrow> Inl UnrecognizedFormat
      | Some parsed \<Rightarrow> Inr (import_rows id_of now batch_size mode parsed db))"


text \<open>
  Modelled from the spec: the backend as \<open>invoke\<close> for the commands that reply with a
  list of bookmarks.
\<close>

definition serve_items ::
  "matcher \<Rightarrow> ranker \<Rightarrow> nat \<Rightarrow> database \<Rightarrow> command \<Rightarrow> invoke_error + bookmark list" where
  "serve_items text_match relevance max_limit db c =
     (case c of
        Search_bookmarks q t lim \<Rightarrow>
          Inr (search_bookmarks text_match relevance max_limit db q t lim)
      | Search_with_filters q t a d1 d2 fav med lim \<Rightarrow>
          Inr (search_with_filters text_match relevance max_limit db q t a d1 d2 fav med lim)
      | Get_favorites lim \<Rightarrow> Inr (get_favorites text_match relevance max_limit db lim)
      | _ \<Rightarrow> Inl BadCommand)"

text \<open>
  Modelled from the spec: the backend as \<open>invoke\<close> for \<open>toggle_favorite\<close>; the reply
  is the new state.
\<close>

definition serve_toggle :: "database \<Rightarrow> command \<Rightarrow> invoke_error + bool" where
  "serve_toggle db c =
     (case c of
        Toggle_favorite i \<Rightarrow> map_sum (\<lambda>e. e) fst (toggle_favorite db i)
      | _ \<Rightarrow> Inl BadCommand)"

section \<open>Notions used in the statements\<close>

text \<open>
  The three search-style calls of the API, the command that each of them sends, and the
  \<open>limit\<close> argument of a command.
\<close>

datatype search_call =
    Search_call js_string "js_string option"
  | Filters_call filters
  | Favorites_call

fun run_search ::
  "bool \<Rightarrow> (js_string \<Rightarrow> js_string) \<Rightarrow> (command \<Rightarrow> invoke_error + bookmark list)
     \<Rightarrow> search_call \<Rightarrow> app \<Rightarrow> app" where
  "run_search isTauri toLowerCase invoke (Search_call q t) st = searchBookmarks isTauri toLowerCase invoke q t st"
| "run_search isTauri toLowerCase invoke (Filters_call fs) st = searchWithFilters isTauri toLowerCase invoke fs st"
| "run_search isTauri toLowerCase invoke Favorites_call st = loadFavorites isTauri invoke st"

fun search_command :: "search_call \<Rightarrow> command" where
  "search_command (Search_call q t) =
     Search_bookmarks (or_undefined (Some q)) (or_undefined t) 100"
| "search_command (Filters_call fs) =
     Search_with_filters
       (or_undefined (query fs)) (or_undefined (tag fs))
       (or_undefined (author fs)) (or_undefined (fromDate fs))
       (or_undefined (toDate fs)) (or_false (favoritesOnly fs))
       (hasMedia fs) 100"
| "search_command Favorites_call = Get_favorites 100"

fun command_limit :: "command \<Rightarrow> nat option" where
  "command_limit (Get_bookmarks off lim) = Some lim"
| "command_limit (Search_bookmarks q t lim) = Some lim"
| "command_limit (Search_with_filters q t a d1 d2 fav med lim) = Some lim"
| "command_limit (Get_favorites lim) = Some lim"
| "command_limit (Toggle_favorite i) = None"
| "command_limit (Delete_bookmark i) = None"
| "command_limit (Import_file path) = None"
| "command_limit (Fetch_link_preview u) = None"

text \<open>What the development mode keeps of \<open>mockBookmarks\<close> in a search-style call.\<close>

fun mock_keeps :: "(js_string \<Rightarrow> js_string) \<Rightarrow> search_call \<Rightarrow> bookmark \<Rightarrow> bool" where
  "mock_keeps toLowerCase (Search_call q t) b =
     ((if q \<noteq> [] then
         sublist (toLowerCase q) (toLowerCase (content b))
         \<or> sublist (toLowerCase q) (toLowerCase (author_handle b))
         \<or> sublist (toLowerCase q) (toLowerCase (author_name b))
       else True)
      \<and> (case or_undefined t of Some x \<Rightarrow> x \<in> set (tags b) | None \<Rightarrow> True))"
| "mock_keeps toLowerCase (Filters_call fs) b =
     ((case or_undefined (query fs) of
         Some s \<Rightarrow>
           sublist (toLowerCase s) (toLowerCase (content b))
           \<or> sublist (toLowerCase s) (toLowerCase (author_handle b))
       | None \<Rightarrow> True)
      \<and> (if or_false (favoritesOnly fs) then is_favorite b else True))"
| "mock_keeps toLowerCase Favorites_call b = is_favorite b"

text \<open>
  Two invariants of the preview cache: every cached task is resolved, and a preview command
  was sent at most once for a cached URL and never for another one.
\<close>

definition cache_resolved :: "app \<Rightarrow> bool" where
  "cache_resolved st = (\<forall>u t. previewCache st u = Some t \<longrightarrow> (\<exists>v. t = Resolved v))"

definition fetched_once :: "app \<Rightarrow> bool" where
  "fetched_once st =
     (\<forall>u. count_list (invoked st) (Fetch_link_preview u)
            \<le> (case previewCache st u of None \<Rightarrow> 0 | Some t \<Rightarrow> 1))"

text \<open>
  The favourite flag that a list shows for an id: the flag of the first bookmark with the
  id, which is the one that \<open>findIndex\<close> finds.
\<close>

definition favorite_of :: "js_string \<Rightarrow> bookmark list \<Rightarrow> bool option" where
  "favorite_of i bs = map_option is_favorite (find (\<lambda>b. bookmark_id b = i) bs)"

text \<open>
  The list after \<open>items[idx].is_favorite = v\<close> at the index that \<open>findIndex\<close> finds,
  written by recursion on the list.
\<close>

fun update_first :: "('a \<Rightarrow> bool) \<Rightarrow> ('a \<Rightarrow> 'a) \<Rightarrow> 'a list \<Rightarrow> 'a list" where
  "update_first P g [] = []"
| "update_first P g (x # xs) = (if P x then g x # xs else x # update_first P g xs)"

definition set_favorite :: "js_string \<Rightarrow> bool \<Rightarrow> bookmark list \<Rightarrow> bookmark list" where
  "set_favorite i v bs =
     update_first (\<lambda>b. bookmark_id b = i) (\<lambda>b. b\<lparr> is_favorite := v \<rparr>) bs"

text \<open>
  One call of \<open>toggleFavorite\<close> against the backend of the specification: \<open>invoke\<close>
  is served from the database, and the database is the one after the command.
\<close>

definition toggle_with_backend ::
  "js_string \<Rightarrow> database \<times> app \<Rightarrow> bool promise \<times> (database \<times> app)" where
  "toggle_with_backend i s =
     (let r = toggleFavorite True (serve_toggle (fst s)) i (snd s);
          db' = (case toggle_favorite (fst s) i of Inr (v, d) \<Rightarrow> d | Inl e \<Rightarrow> fst s)
      in (fst r, (db', snd r)))"



text \<open>
  The stored URLs, and the valid records and the row errors among parsed rows.
\<close>

definition urls :: "database \<Rightarrow> js_string list" where
  "urls db = map tweet_url (rows db)"

definition valid_rows :: "parsed_row list \<Rightarrow> bookmark list" where
  "valid_rows parsed = List.map_filter (\<lambda>r. case r of Inl e \<Rightarrow> None | Inr b \<Rightarrow> Some b) parsed"

definition row_errors :: "parsed_row list \<Rightarrow> RowError list" where
  "row_errors parsed = List.map_filter (\<lambda>r. case r of Inl e \<Rightarrow> Some e | Inr b \<Rightarrow> None) parsed"

section \<open>Examples\<close>

text \<open>
  With Tauri no function of the API calls \<open>toLowerCase\<close>. The examples with Tauri pass
  \<open>not_called\<close> for it.
\<close>

definition not_called :: "js_string \<Rightarrow> js_string" where
  "not_called s = s"

text \<open>
  A feed after the first page of a backend that holds three bookmarks, one to the page.
\<close>

definition first_page :: PaginatedResponse where
  "first_page =
     \<lparr> resp_items = [example_card], resp_total = 3, resp_offset = 0, resp_limit = 1,
       has_more = True \<rparr>"

definition after_first_page :: app where
  "after_first_page =
     loadBookmarks True (\<lambda>c. Inr first_page)
       \<lparr> opt_offset = None, opt_limit = Some 1, opt_reset = True \<rparr> initial_app"

definition second_page :: PaginatedResponse where
  "second_page =
     \<lparr> resp_items = [hd mockBookmarks], resp_total = 3, resp_offset = 1, resp_limit = 1,
       has_more = True \<rparr>"

text \<open>
  A list and a database that hold one bookmark, two filter arguments, and the mock data as
  a database.
\<close>

definition one_card_app :: app where
  "one_card_app = initial_app\<lparr> bookmarks := [example_card] \<rparr>"

definition one_card_db :: database where
  "one_card_db = \<lparr> rows = [example_card], next_id = 1 \<rparr>"

definition technology_favorites :: filters where
  "technology_favorites =
     \<lparr> query = None, tag = Some (str ''technology''), author = None, fromDate = None,
       toDate = None, favoritesOnly = Some True, hasMedia = None \<rparr>"

definition rust_favorites :: filters where
  "rust_favorites =
     \<lparr> query = None, tag = Some (str ''rust''), author = None, fromDate = None,
       toDate = None, favoritesOnly = Some True, hasMedia = None \<rparr>"

definition mock_db :: database where
  "mock_db = \<lparr> rows = mockBookmarks, next_id = 2 \<rparr>"

text \<open>
  The scenario of the specification: three rows, the second with a date that cannot be
  parsed, imported into an empty database.
\<close>

definition scenario_file :: "parsed_row list" where
  "scenario_file =
     [ Inr (hd mockBookmarks),
       Inl \<lparr> row_index = 2, reason = UnparsableDate, fragment = str ''yesterday'' \<rparr>,
       Inr (hd (tl mockBookmarks)) ]"

definition empty_db :: database where
  "empty_db = \<lparr> rows = [], next_id = 0 \<rparr>"

section \<open>Properties of the link targets\<close>

lemma foldl_set_add_set: "set (foldl set_add acc xs) = set acc \<union> set xs"
  by (induction xs arbitrary: acc) (auto simp: set_add_def)

lemma foldl_set_add_distinct: "distinct acc \<Longrightarrow> distinct (foldl set_add acc xs)"
  by (induction xs arbitrary: acc) (auto simp: set_add_def)

lemma array_from_set_set: "set (array_from_set xs) = set xs"
  by (simp add: array_from_set_def foldl_set_add_set)

lemma array_from_set_distinct: "distinct (array_from_set xs)"
  by (simp add: array_from_set_def foldl_set_add_distinct)

lemma match_at_shape:
  assumes "match_at s = Some m"
  shows "prefix m s \<and> (prefix (str ''http://'') m \<or> prefix (str ''https://'') m)
         \<and> (\<forall>c \<in> set (drop 7 m). \<not> is_space c) \<and> 7 < length m"
proof -
  let ?body = "\<lambda>p. takeWhile (\<lambda>c. \<not> is_space c) (drop (length p) s)"
  have tw: "\<And>p. prefix p s \<Longrightarrow> prefix (p @ ?body p) s"
  proof -
    fix p :: js_string
    assume "prefix p s"
    then obtain r where r: "s = p @ r" by (auto simp: prefix_def)
    have "prefix (takeWhile (\<lambda>c. \<not> is_space c) r) r"
      by (metis prefixI takeWhile_dropWhile_id)
    with r show "prefix (p @ ?body p) s" by simp
  qed
  have nsp: "\<And>p. \<forall>c \<in> set (?body p). \<not> is_space c"
    by (auto dest: set_takeWhileD)
  have nsp_str: "\<forall>c \<in> set (str ''https://''). \<not> is_space c"
    by (simp add: str_def is_space_def)
  show ?thesis
  proof (cases "prefix (str ''https://'') s")
    case True
    with assms have m: "m = str ''https://'' @ ?body (str ''https://'')"
      and ne: "?body (str ''https://'') \<noteq> []"
      by (auto simp: match_at_def Let_def split: if_splits)
    have "prefix m s" using tw[OF True] m by simp
    moreover have "prefix (str ''https://'') m" using m by simp
    moreover have "\<forall>c \<in> set (drop 7 m). \<not> is_space c"
    proof
      fix c assume "c \<in> set (drop 7 m)"
      then have "c \<in> set m" by (rule in_set_dropD)
      then show "\<not> is_space c" using m nsp nsp_str by auto
    qed
    moreover have "7 < length m" using m ne by (simp add: str_def)
    ultimately show ?thesis by blast
  next
    case False
    with assms have p: "prefix (str ''http://'') s"
      and m: "m = str ''http://'' @ ?body (str ''http://'')"
      and ne: "?body (str ''http://'') \<noteq> []"
      by (auto simp: match_at_def Let_def split: if_splits)
    have "prefix m s" using tw[OF p] m by simp
    moreover have "prefix (str ''http://'') m" using m by simp
    moreover have "\<forall>c \<in> set (drop 7 m). \<not> is_space c"
      using m nsp[of "str ''http://''"] by (simp add: str_def)
    moreover have "7 < length m"
      using m ne by (simp add: str_def)
    ultimately show ?thesis by blast
  qed
qed

lemma scan_matches:
  "m \<in> set (scan k s) \<Longrightarrow> \<exists>t. suffix t s \<and> match_at t = Some m"
proof (induction k s rule: scan.induct)
  case (1 k)
  then show ?case by simp
next
  case (2 k c cs)
  then obtain t where "suffix t cs" "match_at t = Some m" by auto
  then show ?case by (meson suffix_Cons)
next
  case (3 c cs)
  show ?case
  proof (cases "match_at (c # cs)")
    case None
    with 3 obtain t where "suffix t cs" "match_at t = Some m" by auto
    then show ?thesis by (meson suffix_Cons)
  next
    case (Some m')
    with "3.prems" have "m = m' \<or> m \<in> set (scan (length m' - 1) cs)" by simp
    then show ?thesis
    proof
      assume "m = m'"
      with Some show ?thesis by (metis suffix_order.order_refl)
    next
      assume "m \<in> set (scan (length m' - 1) cs)"
      with "3.IH" Some obtain t where "suffix t cs" "match_at t = Some m" by auto
      then show ?thesis by (meson suffix_Cons)
    qed
  qed
qed

lemma match_urls_shape:
  assumes "m \<in> set (match_urls s)"
  shows "sublist m s \<and> (prefix (str ''http://'') m \<or> prefix (str ''https://'') m)
         \<and> (\<forall>c \<in> set (drop 7 m). \<not> is_space c) \<and> 7 < length m"
proof -
  from assms obtain t where t: "suffix t s" "match_at t = Some m"
    unfolding match_urls_def by (blast dest: scan_matches)
  from match_at_shape[OF t(2)] have "prefix m t" by simp
  with t(1) have "sublist m s"
    by (meson prefix_imp_sublist sublist_order.order_trans suffix_imp_sublist)
  with match_at_shape[OF t(2)] show ?thesis by simp
qed

text \<open>
  The array that the arrow function would return holds the URLs that the regular
  expression finds in the content (each a contiguous piece of the content that starts
  with \<open>http://\<close> or \<open>https://\<close>), with the trailing run of \<open>,\<close> \<open>.\<close> \<open>!\<close> \<open>?\<close>
  removed; it has no duplicate, ends in none of the four marks, and never holds the
  bookmark's own \<open>tweet_url\<close>.
\<close>

lemma linkTargets_body_distinct_not_own:
  "distinct (linkTargets_body b)
   \<and> tweet_url b \<notin> set (linkTargets_body b)
   \<and> set (linkTargets_body b) = strip_trailing ` set (match_urls (content b)) - {tweet_url b}
   \<and> (\<forall>m \<in> set (match_urls (content b)).
         sublist m (content b)
         \<and> (prefix (str ''http://'') m \<or> prefix (str ''https://'') m))
   \<and> (\<forall>u \<in> set (linkTargets_body b). u = [] \<or> \<not> is_trailing_punct (last u))"
proof -
  have d: "distinct (linkTargets_body b)"
    by (simp add: linkTargets_body_def array_from_set_distinct)
  have s: "set (linkTargets_body b) = strip_trailing ` set (match_urls (content b)) - {tweet_url b}"
    by (auto simp: linkTargets_body_def array_from_set_set)
  have m: "\<forall>m \<in> set (match_urls (content b)).
         sublist m (content b)
         \<and> (prefix (str ''http://'') m \<or> prefix (str ''https://'') m)"
    using match_urls_shape by blast
  have st: "\<And>u. strip_trailing u = [] \<or> \<not> is_trailing_punct (last (strip_trailing u))"
  proof -
    fix u :: js_string
    show "strip_trailing u = [] \<or> \<not> is_trailing_punct (last (strip_trailing u))"
    proof (cases "dropWhile is_trailing_punct (rev u)")
      case Nil
      then show ?thesis by (simp add: strip_trailing_def)
    next
      case (Cons x xs)
      then have "\<not> is_trailing_punct x" by (metis hd_dropWhile list.sel(1) list.simps(3))
      with Cons show ?thesis by (simp add: strip_trailing_def)
    qed
  qed
  have p: "\<forall>u \<in> set (linkTargets_body b). u = [] \<or> \<not> is_trailing_punct (last u)"
    using s st by auto
  from d s m p show ?thesis by blast
qed

lemma match_urls_example:
  "match_urls (content example_card)
     = [str ''https://a.io,'', str ''https://a.io!'', str ''https://t.co/x.'']"
  by (simp add: match_urls_def example_card_def match_at_def str_def is_space_def)

lemma linkTargets_body_example: "linkTargets_body example_card = [str ''https://a.io'']"
  unfolding linkTargets_body_def match_urls_example
  by (simp add: example_card_def str_def strip_trailing_def is_trailing_punct_def
      array_from_set_def set_add_def)

lemma link_previews_empty: "link_previews b = []"
  by (simp add: link_previews_def linkTargets_def)

text \<open>
  Claim C9. The content of \<open>example_card\<close> holds \<open>https://a.io\<close> twice, followed by
  \<open>,\<close> and by \<open>!\<close>, and the card's own \<open>tweet_url\<close>: the list of the claim is the one
  URL \<open>https://a.io\<close>, and the arrow function would return it. The card offers no link
  target: \<open>linkTargets\<close> is the function, its \<open>length\<close> is 0, and the template renders
  no preview.
\<close>

theorem card_offers_no_link_target:
  "linkTargets_body example_card = [str ''https://a.io'']
   \<and> linkTargets example_card = Arrow0 (\<lambda>u. [str ''https://a.io''])
   \<and> js_length (linkTargets example_card) = 0
   \<and> link_previews example_card = []"
  by (simp add: linkTargets_def linkTargets_body_example link_previews_def)

section \<open>Loading more bookmarks\<close>

lemma loadBookmarks_turns:
  "loadBookmarks isTauri invoke options st =
     (let r = loadBookmarks_begin isTauri options st
      in loadBookmarks_end isTauri
           (invoke (Get_bookmarks (load_offset (fst r)) (load_limit (fst r)))) (fst r) (snd r))"
  by (simp add: loadBookmarks_def loadBookmarks_begin_def loadBookmarks_end_def Let_def
      send_def split: sum.splits)

lemma loadMoreBookmarks_turns:
  "loadMoreBookmarks isTauri invoke st =
     (case loadMoreBookmarks_begin isTauri st of
        (None, st') \<Rightarrow> st'
      | (Some p, st') \<Rightarrow>
          loadBookmarks_end isTauri
            (invoke (Get_bookmarks (load_offset p) (load_limit p))) p st')"
  by (simp add: loadMoreBookmarks_def loadMoreBookmarks_begin_def loadBookmarks_turns Let_def)

lemma after_first_page_eq:
  "after_first_page =
     \<lparr> bookmarks = [example_card], isLoading = False,
       feedMeta = \<lparr> offset = 1, limit = 1, total = 3, hasMore = True \<rparr>,
       previewCache = Map.empty, invoked = [Get_bookmarks 0 1] \<rparr>"
  by (simp add: after_first_page_def loadBookmarks_def first_page_def initial_app_def
      send_def feed_reset_def)

text \<open>
  Claim C10, as amended. When \<open>hasMore\<close> is false or the flag \<open>isLoading\<close> is raised,
  \<open>loadMoreBookmarks\<close> returns at once: nothing is pending, the state is the one before
  the call, so no command was sent and the list and the feed metadata are unchanged. The
  flag is raised by \<open>loadBookmarks\<close> when it starts to load the first page (offset 0):
  \<open>loadMoreBookmarks\<close> called in the state that it leaves does nothing.
\<close>

theorem loadMoreBookmarks_noop:
  "(\<not> hasMore (feedMeta st) \<or> isLoading st \<longrightarrow>
       loadMoreBookmarks_begin isTauri st = (None, st)
     \<and> loadMoreBookmarks isTauri invoke st = st
     \<and> invoked (loadMoreBookmarks isTauri invoke st) = invoked st
     \<and> bookmarks (loadMoreBookmarks isTauri invoke st) = bookmarks st
     \<and> feedMeta (loadMoreBookmarks isTauri invoke st) = feedMeta st)
   \<and> (load_offset (fst (loadBookmarks_begin isTauri options st)) = 0 \<longrightarrow>
       isLoading (snd (loadBookmarks_begin isTauri options st))
     \<and> loadMoreBookmarks_begin isTauri (snd (loadBookmarks_begin isTauri options st))
         = (None, snd (loadBookmarks_begin isTauri options st)))"
proof (intro conjI impI)
  assume g: "\<not> hasMore (feedMeta st) \<or> isLoading st"
  then show "loadMoreBookmarks_begin isTauri st = (None, st)"
    by (auto simp: loadMoreBookmarks_begin_def)
  from g show n: "loadMoreBookmarks isTauri invoke st = st"
    by (auto simp: loadMoreBookmarks_def)
  show "invoked (loadMoreBookmarks isTauri invoke st) = invoked st"
    "bookmarks (loadMoreBookmarks isTauri invoke st) = bookmarks st"
    "feedMeta (loadMoreBookmarks isTauri invoke st) = feedMeta st"
    unfolding n by simp_all
next
  assume "load_offset (fst (loadBookmarks_begin isTauri options st)) = 0"
  then show l: "isLoading (snd (loadBookmarks_begin isTauri options st))"
    by (simp add: loadBookmarks_begin_def Let_def send_def split: if_splits option.splits)
  then show "loadMoreBookmarks_begin isTauri (snd (loadBookmarks_begin isTauri options st))
         = (None, snd (loadBookmarks_begin isTauri options st))"
    by (simp add: loadMoreBookmarks_begin_def)
qed

theorem loadMoreBookmarks_noop_witness:
  "\<not> hasMore (feedMeta (initial_app\<lparr> feedMeta := feed_reset 50 \<lparr> hasMore := False \<rparr> \<rparr>))
   \<and> loadMoreBookmarks True (\<lambda>c. Inl StorageBusy)
         (initial_app\<lparr> feedMeta := feed_reset 50 \<lparr> hasMore := False \<rparr> \<rparr>)
       = initial_app\<lparr> feedMeta := feed_reset 50 \<lparr> hasMore := False \<rparr> \<rparr>
   \<and> isLoading (initial_app\<lparr> isLoading := True \<rparr>)
   \<and> invoked (loadMoreBookmarks True (\<lambda>c. Inl StorageBusy) (initial_app\<lparr> isLoading := True \<rparr>))
       = []
   \<and> invoked (loadMoreBookmarks True (\<lambda>c. Inl StorageBusy) initial_app)
       = [Get_bookmarks 0 50]
   \<and> fst (loadBookmarks_begin True
             \<lparr> opt_offset = None, opt_limit = None, opt_reset = True \<rparr> after_first_page)
       = \<lparr> load_offset = 0, load_limit = 1 \<rparr>
   \<and> invoked (snd (loadMoreBookmarks_begin True
         (snd (loadBookmarks_begin True
                 \<lparr> opt_offset = None, opt_limit = None, opt_reset = True \<rparr> after_first_page))))
       = [Get_bookmarks 0 1, Get_bookmarks 0 1]"
proof -
  let ?s = "initial_app\<lparr> feedMeta := feed_reset 50 \<lparr> hasMore := False \<rparr> \<rparr>"
  let ?t = "initial_app\<lparr> isLoading := True \<rparr>"
  let ?o = "\<lparr> opt_offset = None, opt_limit = None, opt_reset = True \<rparr>"
  have h1: "\<not> hasMore (feedMeta ?s)" by (simp add: feed_reset_def)
  have h2: "isLoading ?t" by simp
  have c: "invoked (loadMoreBookmarks True (\<lambda>c. Inl StorageBusy) initial_app)
       = [Get_bookmarks 0 50]"
    by (simp add: loadMoreBookmarks_def loadBookmarks_def initial_app_def send_def)
  have d: "invoked ?t = []" by (simp add: initial_app_def)
  have p: "fst (loadBookmarks_begin True ?o after_first_page)
       = \<lparr> load_offset = 0, load_limit = 1 \<rparr>"
    and i: "invoked (snd (loadBookmarks_begin True ?o after_first_page))
       = [Get_bookmarks 0 1, Get_bookmarks 0 1]"
    unfolding after_first_page_eq by (simp_all add: loadBookmarks_begin_def send_def)
  note a = loadMoreBookmarks_noop[where st = ?s and isTauri = True
      and invoke = "\<lambda>c. Inl StorageBusy"]
  note b = loadMoreBookmarks_noop[where st = ?t and isTauri = True
      and invoke = "\<lambda>c. Inl StorageBusy"]
  note e = loadMoreBookmarks_noop[where st = after_first_page and isTauri = True
      and options = ?o]
  from a h1 have "loadMoreBookmarks True (\<lambda>c. Inl StorageBusy) ?s = ?s" by blast
  moreover from b h2 d
  have "invoked (loadMoreBookmarks True (\<lambda>c. Inl StorageBusy) ?t) = []" by simp
  moreover from e p i
  have "invoked (snd (loadMoreBookmarks_begin True (snd (loadBookmarks_begin True ?o after_first_page))))
       = [Get_bookmarks 0 1, Get_bookmarks 0 1]"
    by simp
  ultimately show ?thesis using h1 h2 c p by blast
qed

text \<open>
  The claim C10 as stated fails: while a load of a later page is pending, \<open>hasMore\<close> is
  true and \<open>isLoading\<close> is false, and a second \<open>loadMoreBookmarks\<close> sends the command
  for the same page again; when both loads complete, the page is in the list twice.
\<close>

theorem loadMore_during_later_page:
  "hasMore (feedMeta after_first_page)
   \<and> fst (loadMoreBookmarks_begin True after_first_page)
       = Some \<lparr> load_offset = 1, load_limit = 1 \<rparr>
   \<and> bookmarks (snd (loadMoreBookmarks_begin True after_first_page)) = [example_card]
   \<and> fst (loadMoreBookmarks_begin True (snd (loadMoreBookmarks_begin True after_first_page)))
       = Some \<lparr> load_offset = 1, load_limit = 1 \<rparr>
   \<and> invoked (snd (loadMoreBookmarks_begin True
                      (snd (loadMoreBookmarks_begin True after_first_page))))
       = [Get_bookmarks 0 1, Get_bookmarks 1 1, Get_bookmarks 1 1]
   \<and> bookmarks
         (loadBookmarks_end True (Inr second_page) \<lparr> load_offset = 1, load_limit = 1 \<rparr>
            (loadBookmarks_end True (Inr second_page) \<lparr> load_offset = 1, load_limit = 1 \<rparr>
               (snd (loadMoreBookmarks_begin True
                       (snd (loadMoreBookmarks_begin True after_first_page))))))
       = [example_card, hd mockBookmarks, hd mockBookmarks]"
  unfolding after_first_page_eq
  by (simp add: loadMoreBookmarks_begin_def loadBookmarks_begin_def loadBookmarks_end_def
      send_def second_page_def)

section \<open>The preview cache\<close>

lemma preview_task_resolved: "\<exists>v. preview_task isTauri invoke u = Resolved v"
  by (auto simp: preview_task_def split: sum.splits)

lemma loadBookmarks_cache [simp]:
  "previewCache (loadBookmarks isTauri invoke options st) = previewCache st"
  by (simp add: loadBookmarks_def Let_def send_def feed_reset_def split: sum.splits option.splits)

lemma loadMoreBookmarks_cache [simp]:
  "previewCache (loadMoreBookmarks isTauri invoke st) = previewCache st"
  by (simp add: loadMoreBookmarks_def)

lemma searchBookmarks_cache [simp]:
  "previewCache (searchBookmarks isTauri toLowerCase invoke q t st) = previewCache st"
  by (simp add: searchBookmarks_def Let_def send_def show_results_def split: sum.splits option.splits)

lemma searchWithFilters_cache [simp]:
  "previewCache (searchWithFilters isTauri toLowerCase invoke fs st) = previewCache st"
  by (simp add: searchWithFilters_def Let_def send_def show_results_def split: sum.splits option.splits)

lemma loadFavorites_cache [simp]:
  "previewCache (loadFavorites isTauri invoke st) = previewCache st"
  by (simp add: loadFavorites_def Let_def send_def show_results_def split: sum.splits option.splits)

lemma toggleFavorite_cache [simp]:
  "previewCache (snd (toggleFavorite isTauri invoke i st)) = previewCache st"
  by (simp add: toggleFavorite_def Let_def send_def split: sum.splits option.splits)

lemma deleteBookmark_cache [simp]:
  "previewCache (deleteBookmark isTauri invoke i st) = previewCache st"
  by (simp add: deleteBookmark_def Let_def send_def split: sum.splits option.splits)

lemma importFile_cache [simp]:
  "previewCache (snd (importFile isTauri invoke invoke_page path st)) = previewCache st"
  by (simp add: importFile_def Let_def send_def split: sum.splits)

lemma fetchLinkPreview_cache:
  "previewCache (snd (fetchLinkPreview isTauri invoke u st)) =
     (case previewCache st u of
        Some t \<Rightarrow> previewCache st
      | None \<Rightarrow> (previewCache st)(u \<mapsto> preview_task isTauri invoke u))"
  by (simp add: fetchLinkPreview_def Let_def send_def split: option.splits)

lemma api_step_keeps_entry:
  "previewCache st u = Some t \<Longrightarrow> previewCache (api_step isTauri toLowerCase c st) u = Some t"
  by (cases c) (auto simp: fetchLinkPreview_cache split: option.splits)

lemma api_run_keeps_entry:
  "previewCache st u = Some t \<Longrightarrow> previewCache (api_run isTauri toLowerCase cs st) u = Some t"
  unfolding api_run_def
  by (induction cs arbitrary: st) (auto simp: api_step_keeps_entry)

lemma api_step_resolved: "cache_resolved st \<Longrightarrow> cache_resolved (api_step isTauri toLowerCase c st)"
proof (cases c)
  case (Call_fetchLinkPreview invoke u)
  assume "cache_resolved st"
  with Call_fetchLinkPreview show ?thesis
    using preview_task_resolved[of isTauri invoke u]
    by (auto simp: cache_resolved_def fetchLinkPreview_cache split: option.splits if_splits)
qed (auto simp: cache_resolved_def)

lemma api_run_resolved: "cache_resolved st \<Longrightarrow> cache_resolved (api_run isTauri toLowerCase cs st)"
  unfolding api_run_def
  by (induction cs arbitrary: st) (auto simp: api_step_resolved)

lemma initial_resolved: "cache_resolved initial_app"
  by (simp add: cache_resolved_def initial_app_def)

lemma fetch_resolved:
  "cache_resolved st \<Longrightarrow> \<exists>v. fst (fetchLinkPreview isTauri invoke u st) = Resolved v"
  using preview_task_resolved[of isTauri invoke u]
  by (auto simp: fetchLinkPreview_def cache_resolved_def Let_def split: option.splits)

text \<open>
  Claim C6. After any run of calls of the API from the initial state, \<open>fetchLinkPreview\<close>
  returns a promise that resolves, to a preview or to \<open>null\<close>, and never one that
  rejects; when the command fails for a URL that is not cached, the promise resolves to
  \<open>null\<close>.
\<close>

theorem fetchLinkPreview_never_rejects:
  "(\<exists>v. fst (fetchLinkPreview isTauri invoke u (api_run isTauri toLowerCase calls initial_app)) = Resolved v)
   \<and> (\<forall>e st. invoke (Fetch_link_preview u) = Inl e \<and> previewCache st u = None
         \<longrightarrow> fst (fetchLinkPreview isTauri invoke u st) = Resolved None)"
proof
  show "\<exists>v. fst (fetchLinkPreview isTauri invoke u (api_run isTauri toLowerCase calls initial_app)) = Resolved v"
    by (rule fetch_resolved) (rule api_run_resolved, rule initial_resolved)
  show "\<forall>e st. invoke (Fetch_link_preview u) = Inl e \<and> previewCache st u = None
         \<longrightarrow> fst (fetchLinkPreview isTauri invoke u st) = Resolved None"
    by (auto simp: fetchLinkPreview_def preview_task_def Let_def)
qed

theorem fetchLinkPreview_never_rejects_witness:
  "fst (fetchLinkPreview True (\<lambda>c. Inl StorageIOError) (str ''https://a.io'') initial_app)
     = Resolved None
   \<and> (\<exists>v. fst (fetchLinkPreview True (\<lambda>c. Inl StorageIOError) (str ''https://a.io'')
               (api_run True not_called [Call_fetchLinkPreview (\<lambda>c. Inr None) (str ''https://b.io'')]
                  initial_app)) = Resolved v)"
proof -
  have n: "previewCache initial_app (str ''https://a.io'') = None"
    by (simp add: initial_app_def)
  from fetchLinkPreview_never_rejects[where isTauri = True
      and invoke = "\<lambda>c. Inl StorageIOError" and u = "str ''https://a.io''"
      and toLowerCase = not_called
      and calls = "[Call_fetchLinkPreview (\<lambda>c. Inr None) (str ''https://b.io'')]"] n
  show ?thesis by blast
qed

lemma count_send [simp]:
  "count_list (invoked (send c st)) x = count_list (invoked st) x + (if c = x then 1 else 0)"
  by (simp add: send_def)

lemma loadBookmarks_fetches [simp]:
  "count_list (invoked (loadBookmarks isTauri invoke options st)) (Fetch_link_preview u)
     = count_list (invoked st) (Fetch_link_preview u)"
  by (simp add: loadBookmarks_def Let_def send_def feed_reset_def split: sum.splits option.splits)

lemma loadMoreBookmarks_fetches [simp]:
  "count_list (invoked (loadMoreBookmarks isTauri invoke st)) (Fetch_link_preview u)
     = count_list (invoked st) (Fetch_link_preview u)"
  by (simp add: loadMoreBookmarks_def)

lemma searchBookmarks_fetches [simp]:
  "count_list (invoked (searchBookmarks isTauri toLowerCase invoke q t st)) (Fetch_link_preview u)
     = count_list (invoked st) (Fetch_link_preview u)"
  by (simp add: searchBookmarks_def Let_def send_def show_results_def split: sum.splits option.splits)

lemma searchWithFilters_fetches [simp]:
  "count_list (invoked (searchWithFilters isTauri toLowerCase invoke fs st)) (Fetch_link_preview u)
     = count_list (invoked st) (Fetch_link_preview u)"
  by (simp add: searchWithFilters_def Let_def send_def show_results_def split: sum.splits option.splits)

lemma loadFavorites_fetches [simp]:
  "count_list (invoked (loadFavorites isTauri invoke st)) (Fetch_link_preview u)
     = count_list (invoked st) (Fetch_link_preview u)"
  by (simp add: loadFavorites_def Let_def send_def show_results_def split: sum.splits option.splits)

lemma toggleFavorite_fetches [simp]:
  "count_list (invoked (snd (toggleFavorite isTauri invoke i st))) (Fetch_link_preview u)
     = count_list (invoked st) (Fetch_link_preview u)"
  by (simp add: toggleFavorite_def Let_def send_def split: sum.splits option.splits)

lemma deleteBookmark_fetches [simp]:
  "count_list (invoked (deleteBookmark isTauri invoke i st)) (Fetch_link_preview u)
     = count_list (invoked st) (Fetch_link_preview u)"
  by (simp add: deleteBookmark_def Let_def send_def split: sum.splits option.splits)

lemma importFile_fetches [simp]:
  "count_list (invoked (snd (importFile isTauri invoke invoke_page path st))) (Fetch_link_preview u)
     = count_list (invoked st) (Fetch_link_preview u)"
  by (simp add: importFile_def Let_def split: sum.splits)

lemma fetchLinkPreview_fetches:
  "count_list (invoked (snd (fetchLinkPreview isTauri invoke u st))) (Fetch_link_preview v)
     = count_list (invoked st) (Fetch_link_preview v)
       + (if previewCache st u = None \<and> isTauri \<and> u = v then 1 else 0)"
  by (auto simp: fetchLinkPreview_def Let_def send_def split: option.splits)

lemma api_step_fetched_once: "fetched_once st \<Longrightarrow> fetched_once (api_step isTauri toLowerCase c st)"
proof (cases c)
  case (Call_fetchLinkPreview invoke u)
  assume a: "fetched_once st"
  show ?thesis
    unfolding fetched_once_def
  proof
    fix v
    from a have "count_list (invoked st) (Fetch_link_preview v)
            \<le> (case previewCache st v of None \<Rightarrow> 0 | Some t \<Rightarrow> 1)"
      by (simp add: fetched_once_def)
    then show "count_list (invoked (api_step isTauri toLowerCase c st)) (Fetch_link_preview v)
            \<le> (case previewCache (api_step isTauri toLowerCase c st) v of None \<Rightarrow> 0 | Some t \<Rightarrow> 1)"
      by (auto simp: Call_fetchLinkPreview fetchLinkPreview_fetches fetchLinkPreview_cache
          split: option.splits)
  qed
qed (auto simp: fetched_once_def)

lemma api_run_fetched_once: "fetched_once st \<Longrightarrow> fetched_once (api_run isTauri toLowerCase cs st)"
  unfolding api_run_def
  by (induction cs arbitrary: st) (auto simp: api_step_fetched_once)

lemma initial_fetched_once: "fetched_once initial_app"
  by (simp add: fetched_once_def initial_app_def)

lemma fetch_caches:
  "previewCache (snd (fetchLinkPreview isTauri invoke u st)) u
     = Some (fst (fetchLinkPreview isTauri invoke u st))"
  by (simp add: fetchLinkPreview_def Let_def split: option.splits)

lemma fetch_cached:
  "previewCache st u = Some t \<Longrightarrow> fetchLinkPreview isTauri invoke u st = (t, st)"
  by (simp add: fetchLinkPreview_def)

text \<open>
  Claim C7. The cache is keyed by the URL. In any run of calls from the initial state the
  command \<open>fetch_link_preview\<close> is sent at most once for a URL. Once
  \<open>fetchLinkPreview\<close> has been called with a URL, every later call with it, after any
  further calls of the API, returns the same promise and changes nothing; in particular a
  \<open>null\<close> cached after a failed command is returned again and the command is not sent
  again.
\<close>

theorem previewCache_memoizes:
  "count_list (invoked (api_run isTauri toLowerCase calls initial_app)) (Fetch_link_preview u) \<le> 1
   \<and> fetchLinkPreview isTauri invoke' u
         (api_run isTauri toLowerCase calls' (snd (fetchLinkPreview isTauri invoke u st)))
       = (fst (fetchLinkPreview isTauri invoke u st),
          api_run isTauri toLowerCase calls' (snd (fetchLinkPreview isTauri invoke u st)))
   \<and> (\<forall>e. invoke (Fetch_link_preview u) = Inl e \<and> previewCache st u = None \<longrightarrow>
         fst (fetchLinkPreview isTauri invoke' u
                (api_run isTauri toLowerCase calls' (snd (fetchLinkPreview isTauri invoke u st))))
           = Resolved None)"
proof -
  have "fetched_once (api_run isTauri toLowerCase calls initial_app)"
    by (rule api_run_fetched_once) (rule initial_fetched_once)
  then have "count_list (invoked (api_run isTauri toLowerCase calls initial_app)) (Fetch_link_preview u)
      \<le> (case previewCache (api_run isTauri toLowerCase calls initial_app) u of None \<Rightarrow> 0 | Some t \<Rightarrow> 1)"
    by (simp add: fetched_once_def)
  then have a: "count_list (invoked (api_run isTauri toLowerCase calls initial_app)) (Fetch_link_preview u) \<le> 1"
    by (simp split: option.splits)
  let ?st1 = "snd (fetchLinkPreview isTauri invoke u st)"
  have "previewCache (api_run isTauri toLowerCase calls' ?st1) u
      = Some (fst (fetchLinkPreview isTauri invoke u st))"
    by (rule api_run_keeps_entry) (rule fetch_caches)
  then have b: "fetchLinkPreview isTauri invoke' u (api_run isTauri toLowerCase calls' ?st1)
       = (fst (fetchLinkPreview isTauri invoke u st), api_run isTauri toLowerCase calls' ?st1)"
    by (rule fetch_cached)
  have c: "\<forall>e. invoke (Fetch_link_preview u) = Inl e \<and> previewCache st u = None \<longrightarrow>
         fst (fetchLinkPreview isTauri invoke' u (api_run isTauri toLowerCase calls' ?st1)) = Resolved None"
    unfolding b by (auto simp: fetchLinkPreview_def preview_task_def Let_def)
  from a b c show ?thesis by blast
qed

theorem previewCache_memoizes_witness:
  "fst (fetchLinkPreview True (\<lambda>c. Inr None) (str ''https://a.io'')
          (api_run True not_called [Call_loadFavorites (\<lambda>c. Inl StorageBusy)]
             (snd (fetchLinkPreview True (\<lambda>c. Inl StorageIOError) (str ''https://a.io'')
                     initial_app))))
     = Resolved None
   \<and> invoked (snd (fetchLinkPreview True (\<lambda>c. Inr None) (str ''https://a.io'')
          (api_run True not_called [Call_loadFavorites (\<lambda>c. Inl StorageBusy)]
             (snd (fetchLinkPreview True (\<lambda>c. Inl StorageIOError) (str ''https://a.io'')
                     initial_app)))))
     = [Fetch_link_preview (str ''https://a.io''), Get_favorites 100]"
proof -
  have n: "previewCache initial_app (str ''https://a.io'') = None"
    by (simp add: initial_app_def)
  note t = previewCache_memoizes[where isTauri = True and toLowerCase = not_called
      and calls = "[]" and u = "str ''https://a.io''" and invoke' = "\<lambda>c. Inr None"
      and calls' = "[Call_loadFavorites (\<lambda>c. Inl StorageBusy)]"
      and invoke = "\<lambda>c. Inl StorageIOError" and st = initial_app]
  have l: "invoked (api_run True not_called [Call_loadFavorites (\<lambda>c. Inl StorageBusy)]
             (snd (fetchLinkPreview True (\<lambda>c. Inl StorageIOError) (str ''https://a.io'')
                     initial_app)))
     = [Fetch_link_preview (str ''https://a.io''), Get_favorites 100]"
    by (simp add: api_run_def loadFavorites_def fetchLinkPreview_def initial_app_def send_def
        Let_def preview_task_def)
  from t n have "fst (fetchLinkPreview True (\<lambda>c. Inr None) (str ''https://a.io'')
          (api_run True not_called [Call_loadFavorites (\<lambda>c. Inl StorageBusy)]
             (snd (fetchLinkPreview True (\<lambda>c. Inl StorageIOError) (str ''https://a.io'')
                     initial_app))))
     = Resolved None" by blast
  moreover from t l have "invoked (snd (fetchLinkPreview True (\<lambda>c. Inr None) (str ''https://a.io'')
          (api_run True not_called [Call_loadFavorites (\<lambda>c. Inl StorageBusy)]
             (snd (fetchLinkPreview True (\<lambda>c. Inl StorageIOError) (str ''https://a.io'')
                     initial_app)))))
     = [Fetch_link_preview (str ''https://a.io''), Get_favorites 100]"
    by simp
  ultimately show ?thesis by blast
qed

section \<open>Search-style calls\<close>

lemma run_search_tauri:
  "run_search True toLowerCase invoke sc st =
     (case invoke (search_command sc) of
        Inr items \<Rightarrow> (show_results items (send (search_command sc) st))\<lparr> isLoading := False \<rparr>
      | Inl e \<Rightarrow> (send (search_command sc) st)\<lparr> isLoading := False \<rparr>)"
  by (cases sc)
     (simp_all add: searchBookmarks_def searchWithFilters_def loadFavorites_def Let_def
        send_def show_results_def split: sum.splits)

lemma run_search_mock:
  "run_search False toLowerCase invoke sc st =
     (show_results (filter (mock_keeps toLowerCase sc) mockBookmarks) st)\<lparr> isLoading := False \<rparr>"
proof (cases sc)
  case (Search_call q t)
  have e: "mock_keeps toLowerCase (Search_call q t) = (\<lambda>b.
     (if q \<noteq> [] then
         sublist (toLowerCase q) (toLowerCase (content b))
         \<or> sublist (toLowerCase q) (toLowerCase (author_handle b))
         \<or> sublist (toLowerCase q) (toLowerCase (author_name b))
       else True)
      \<and> (case or_undefined t of Some x \<Rightarrow> x \<in> set (tags b) | None \<Rightarrow> True))"
    by (rule ext) simp
  show ?thesis
    unfolding Search_call run_search.simps searchBookmarks_def Let_def e
    by (cases "or_undefined t") (simp_all add: show_results_def)
next
  case (Filters_call fs)
  have e: "mock_keeps toLowerCase (Filters_call fs) = (\<lambda>b.
     (case or_undefined (query fs) of
         Some s \<Rightarrow>
           sublist (toLowerCase s) (toLowerCase (content b))
           \<or> sublist (toLowerCase s) (toLowerCase (author_handle b))
       | None \<Rightarrow> True)
      \<and> (if or_false (favoritesOnly fs) then is_favorite b else True))"
    by (rule ext) simp
  show ?thesis
    unfolding Filters_call run_search.simps searchWithFilters_def Let_def e
    by (cases "or_undefined (query fs)") (simp_all add: show_results_def)
next
  case Favorites_call
  have e: "mock_keeps toLowerCase Favorites_call = is_favorite"
    by (rule ext) simp
  show ?thesis
    unfolding Favorites_call run_search.simps loadFavorites_def Let_def e
    by (simp add: show_results_def)
qed

lemma mock_result_length: "length (filter P mockBookmarks) \<le> 2"
proof -
  have "length mockBookmarks = 2" by (simp add: mockBookmarks_def)
  then show ?thesis by (metis length_filter_le)
qed

lemma search_with_filters_length:
  "length (search_with_filters tm rel max_limit db q t a d1 d2 fav med lim) \<le> lim"
  by (simp add: search_with_filters_def validate_limit_def)

lemma serve_items_length:
  "serve_items tm rel max_limit db c = Inr items \<Longrightarrow> command_limit c = Some lim
     \<Longrightarrow> length items \<le> lim"
  by (cases c)
     (auto simp: serve_items_def search_bookmarks_def get_favorites_def
        search_with_filters_length)

lemma serve_items_search_ok:
  "\<exists>items. serve_items tm rel max_limit db (search_command sc) = Inr items"
  by (cases sc) (simp_all add: serve_items_def)

lemma search_command_limit: "command_limit (search_command sc) = Some 100"
  by (cases sc) simp_all

text \<open>
  Claim C4, as amended. Each of \<open>searchBookmarks\<close>, \<open>searchWithFilters\<close> and
  \<open>loadFavorites\<close> sends exactly one command, with the limit 100. When the command
  succeeds, the list is the reply, the feed metadata say that nothing more is to be loaded,
  and \<open>loadMoreBookmarks\<close> after it does nothing. When the command fails, the list and
  the feed metadata stay as they were. Against the backend of the specification the list
  has at most 100 items. In the development mode no command is sent, the list has at most
  100 items and \<open>hasMore\<close> is false.
\<close>

theorem search_calls_one_capped_request:
  "invoked (run_search True toLowerCase invoke sc st) = invoked st @ [search_command sc]
   \<and> command_limit (search_command sc) = Some 100
   \<and> (\<forall>items. invoke (search_command sc) = Inr items \<longrightarrow>
          bookmarks (run_search True toLowerCase invoke sc st) = items
        \<and> feedMeta (run_search True toLowerCase invoke sc st)
            = \<lparr> offset = length items, limit = 100, total = length items, hasMore = False \<rparr>
        \<and> loadMoreBookmarks True invoke2 (run_search True toLowerCase invoke sc st)
            = run_search True toLowerCase invoke sc st)
   \<and> (\<forall>e. invoke (search_command sc) = Inl e \<longrightarrow>
          bookmarks (run_search True toLowerCase invoke sc st) = bookmarks st
        \<and> feedMeta (run_search True toLowerCase invoke sc st) = feedMeta st)
   \<and> length (bookmarks (run_search True toLowerCase (serve_items tm rel max_limit db) sc st)) \<le> 100
   \<and> \<not> hasMore (feedMeta (run_search True toLowerCase (serve_items tm rel max_limit db) sc st))
   \<and> invoked (run_search False toLowerCase invoke sc st) = invoked st
   \<and> length (bookmarks (run_search False toLowerCase invoke sc st)) \<le> 100
   \<and> \<not> hasMore (feedMeta (run_search False toLowerCase invoke sc st))"
proof -
  have a: "invoked (run_search True toLowerCase invoke sc st) = invoked st @ [search_command sc]"
    by (simp add: run_search_tauri send_def show_results_def split: sum.splits)
  have b: "\<forall>items. invoke (search_command sc) = Inr items \<longrightarrow>
          bookmarks (run_search True toLowerCase invoke sc st) = items
        \<and> feedMeta (run_search True toLowerCase invoke sc st)
            = \<lparr> offset = length items, limit = 100, total = length items, hasMore = False \<rparr>
        \<and> loadMoreBookmarks True invoke2 (run_search True toLowerCase invoke sc st)
            = run_search True toLowerCase invoke sc st"
    by (simp add: run_search_tauri send_def show_results_def feed_reset_def
        loadMoreBookmarks_def)
  have c: "\<forall>e. invoke (search_command sc) = Inl e \<longrightarrow>
          bookmarks (run_search True toLowerCase invoke sc st) = bookmarks st
        \<and> feedMeta (run_search True toLowerCase invoke sc st) = feedMeta st"
    by (simp add: run_search_tauri send_def)
  obtain items where i: "serve_items tm rel max_limit db (search_command sc) = Inr items"
    using serve_items_search_ok by blast
  from serve_items_length[OF i search_command_limit] have l: "length items \<le> 100" .
  have d: "length (bookmarks (run_search True toLowerCase (serve_items tm rel max_limit db) sc st)) \<le> 100"
    using i l by (simp add: run_search_tauri show_results_def send_def)
  have e: "\<not> hasMore (feedMeta (run_search True toLowerCase (serve_items tm rel max_limit db) sc st))"
    using i by (simp add: run_search_tauri show_results_def send_def)
  have f: "invoked (run_search False toLowerCase invoke sc st) = invoked st"
    "length (bookmarks (run_search False toLowerCase invoke sc st)) \<le> 100"
    "\<not> hasMore (feedMeta (run_search False toLowerCase invoke sc st))"
    using mock_result_length[of "mock_keeps toLowerCase sc"]
    by (simp_all add: run_search_mock show_results_def)
  from a b c d e f search_command_limit show ?thesis by blast
qed

theorem search_calls_one_capped_request_witness:
  "bookmarks (run_search True not_called (\<lambda>c. Inr [example_card]) Favorites_call after_first_page)
     = [example_card]
   \<and> feedMeta (run_search True not_called (\<lambda>c. Inr [example_card]) Favorites_call after_first_page)
     = \<lparr> offset = 1, limit = 100, total = 1, hasMore = False \<rparr>
   \<and> invoked (run_search True not_called (\<lambda>c. Inr [example_card]) Favorites_call after_first_page)
     = [Get_bookmarks 0 1, Get_favorites 100]
   \<and> feedMeta (run_search True not_called (\<lambda>c. Inl StorageBusy) Favorites_call after_first_page)
     = \<lparr> offset = 1, limit = 1, total = 3, hasMore = True \<rparr>"
proof -
  note a = search_calls_one_capped_request[where toLowerCase = not_called
      and invoke = "\<lambda>c. Inr [example_card]" and sc = Favorites_call and st = after_first_page]
  note b = search_calls_one_capped_request[where toLowerCase = not_called
      and invoke = "\<lambda>c. Inl StorageBusy" and sc = Favorites_call and st = after_first_page]
  have i: "invoked after_first_page = [Get_bookmarks 0 1]"
    and m: "feedMeta after_first_page = \<lparr> offset = 1, limit = 1, total = 3, hasMore = True \<rparr>"
    by (simp_all add: after_first_page_eq)
  from a have "bookmarks (run_search True not_called (\<lambda>c. Inr [example_card]) Favorites_call after_first_page)
     = [example_card]"
    and "feedMeta (run_search True not_called (\<lambda>c. Inr [example_card]) Favorites_call after_first_page)
     = \<lparr> offset = 1, limit = 100, total = 1, hasMore = False \<rparr>"
    by simp_all
  moreover from a i have "invoked (run_search True not_called (\<lambda>c. Inr [example_card]) Favorites_call after_first_page)
     = [Get_bookmarks 0 1, Get_favorites 100]"
    by simp
  moreover from b m have "feedMeta (run_search True not_called (\<lambda>c. Inl StorageBusy) Favorites_call after_first_page)
     = \<lparr> offset = 1, limit = 1, total = 3, hasMore = True \<rparr>"
    by simp
  ultimately show ?thesis by blast
qed

text \<open>
  The claim C4 as stated fails: a search whose command is rejected leaves \<open>hasMore\<close>
  true, and \<open>loadMoreBookmarks\<close> then fetches the next page of the list.
\<close>

theorem failed_search_keeps_feed_open:
  "hasMore (feedMeta (searchBookmarks True not_called (\<lambda>c. Inl StorageIOError) (str ''rust'') None
                        after_first_page))
   \<and> invoked (loadMoreBookmarks True (\<lambda>c. Inr first_page)
                (searchBookmarks True not_called (\<lambda>c. Inl StorageIOError) (str ''rust'') None
                   after_first_page))
       = [Get_bookmarks 0 1, Search_bookmarks (Some (str ''rust'')) None 100, Get_bookmarks 1 1]"
  unfolding after_first_page_eq
  by (simp add: searchBookmarks_def loadMoreBookmarks_def loadBookmarks_def send_def
      or_undefined_def str_def first_page_def)

section \<open>Toggling a favourite\<close>

lemma findIndex_None: "findIndex P xs = None \<Longrightarrow> find P xs = None"
  by (induction xs) (auto split: if_splits)

lemma findIndex_Some:
  "findIndex P xs = Some k \<Longrightarrow> k < length xs \<and> find P xs = Some (xs ! k)"
  by (induction xs arbitrary: k) (auto split: if_splits)

lemma update_first_index:
  "findIndex P xs = Some k \<Longrightarrow> xs[k := g (xs ! k)] = update_first P g xs"
  by (induction xs arbitrary: k) (auto split: if_splits)

lemma update_first_absent: "findIndex P xs = None \<Longrightarrow> update_first P g xs = xs"
  by (induction xs) (auto split: if_splits)

lemma find_update_first:
  "(\<And>x. P x \<Longrightarrow> P (g x)) \<Longrightarrow> find P (update_first P g xs) = map_option g (find P xs)"
  by (induction xs) auto

lemma update_first_back:
  "find P xs = Some y \<Longrightarrow> P (g y) \<Longrightarrow> h (g y) = y \<Longrightarrow>
     update_first P h (update_first P g xs) = xs"
  by (induction xs) (auto split: if_splits)

lemma update_first_others:
  "(\<And>x. P x \<Longrightarrow> P (g x)) \<Longrightarrow>
     filter (\<lambda>x. \<not> P x) (update_first P g xs) = filter (\<lambda>x. \<not> P x) xs"
  by (induction xs) auto

lemma update_first_map:
  "(\<And>x. P x \<Longrightarrow> k (g x) = k x) \<Longrightarrow> map k (update_first P g xs) = map k xs"
  by (induction xs) auto

lemma update_first_in:
  "distinct (map k xs) \<Longrightarrow> (\<And>x. k (g x) = k x) \<Longrightarrow>
     y \<in> set (update_first (\<lambda>x. k x = i) g xs) \<Longrightarrow> k y = i \<Longrightarrow>
     \<exists>z. find (\<lambda>x. k x = i) xs = Some z \<and> y = g z"
proof (induction xs)
  case Nil
  then show ?case by simp
next
  case (Cons x xs)
  show ?case
  proof (cases "k x = i")
    case True
    with Cons.prems(3) have "y = g x \<or> y \<in> set xs" by simp
    moreover have "y \<notin> set xs"
    proof
      assume "y \<in> set xs"
      then have "k y \<in> k ` set xs" by (rule imageI)
      with Cons.prems(1,4) True show False by simp
    qed
    ultimately show ?thesis using True by simp
  next
    case False
    with Cons.prems have "y \<in> set (update_first (\<lambda>x. k x = i) g xs)"
      and "distinct (map k xs)" by auto
    with Cons.IH Cons.prems(2,4) False show ?thesis by simp
  qed
qed

lemma favorite_of_set_favorite:
  "favorite_of i (set_favorite i v bs) = map_option (\<lambda>f. v) (favorite_of i bs)"
proof -
  have "find (\<lambda>b. bookmark_id b = i) (set_favorite i v bs)
      = map_option (\<lambda>b. b\<lparr> is_favorite := v \<rparr>) (find (\<lambda>b. bookmark_id b = i) bs)"
    unfolding set_favorite_def by (rule find_update_first) simp
  then show ?thesis by (simp add: favorite_of_def option.map_comp comp_def)
qed

lemma set_favorite_back:
  assumes "favorite_of i bs = Some f"
  shows "set_favorite i f (set_favorite i v bs) = bs"
proof -
  from assms obtain y where y: "find (\<lambda>b. bookmark_id b = i) bs = Some y" "is_favorite y = f"
    by (auto simp: favorite_of_def)
  then have "bookmark_id y = i" by (auto simp: find_Some_iff)
  then have p: "bookmark_id (y\<lparr> is_favorite := v \<rparr>) = i" by simp
  have h: "(y\<lparr> is_favorite := v \<rparr>)\<lparr> is_favorite := f \<rparr> = y" using y(2) by simp
  show ?thesis
    unfolding set_favorite_def
    by (rule update_first_back[where y = y]) (use y(1) p h in simp_all)
qed

lemma set_favorite_others:
  "filter (\<lambda>b. bookmark_id b \<noteq> i) (set_favorite i v bs) = filter (\<lambda>b. bookmark_id b \<noteq> i) bs"
  unfolding set_favorite_def by (rule update_first_others) simp

lemma set_favorite_ids: "map bookmark_id (set_favorite i v bs) = map bookmark_id bs"
  unfolding set_favorite_def by (rule update_first_map) simp

lemma set_favorite_all:
  assumes "distinct (map bookmark_id bs)" "b \<in> set (set_favorite i v bs)" "bookmark_id b = i"
  shows "is_favorite b = v"
proof -
  from assms(2) have "b \<in> set (update_first (\<lambda>x. bookmark_id x = i) (\<lambda>b. b\<lparr> is_favorite := v \<rparr>) bs)"
    by (simp add: set_favorite_def)
  with assms(1,3) have "\<exists>z. find (\<lambda>x. bookmark_id x = i) bs = Some z \<and> b = z\<lparr> is_favorite := v \<rparr>"
    by (intro update_first_in) simp_all
  then show ?thesis by auto
qed

lemma toggle_mock_present:
  assumes "favorite_of i (bookmarks st) = Some f"
  shows "toggleFavorite False invoke i st
       = (Resolved (\<not> f), st\<lparr> bookmarks := set_favorite i (\<not> f) (bookmarks st) \<rparr>)"
proof -
  let ?P = "\<lambda>b. bookmark_id b = i"
  from assms have "find ?P (bookmarks st) \<noteq> None" by (auto simp: favorite_of_def)
  then obtain k where k: "findIndex ?P (bookmarks st) = Some k"
    using findIndex_None[of ?P "bookmarks st"] by (cases "findIndex ?P (bookmarks st)") auto
  from findIndex_Some[OF k] assms have l: "k < length (bookmarks st)"
    and f: "is_favorite (bookmarks st ! k) = f"
    by (auto simp: favorite_of_def)
  have u: "(bookmarks st)[k := (bookmarks st ! k)\<lparr> is_favorite := \<not> f \<rparr>]
      = set_favorite i (\<not> f) (bookmarks st)"
    unfolding set_favorite_def using k by (rule update_first_index)
  have n: "is_favorite (set_favorite i (\<not> f) (bookmarks st) ! k) = (\<not> f)"
    unfolding u[symmetric] using l by simp
  show ?thesis
    unfolding toggleFavorite_def Let_def using k f u n by simp
qed

lemma toggle_mock_absent:
  "favorite_of i (bookmarks st) = None \<Longrightarrow>
     toggleFavorite False invoke i st = (Resolved False, st)"
proof -
  assume "favorite_of i (bookmarks st) = None"
  then have "find (\<lambda>b. bookmark_id b = i) (bookmarks st) = None"
    by (simp add: favorite_of_def)
  then have "findIndex (\<lambda>b. bookmark_id b = i) (bookmarks st) = None"
    using findIndex_Some[of "\<lambda>b. bookmark_id b = i" "bookmarks st"]
    by (cases "findIndex (\<lambda>b. bookmark_id b = i) (bookmarks st)") auto
  then show ?thesis by (simp add: toggleFavorite_def)
qed

lemma toggle_tauri:
  "toggleFavorite True invoke i st =
     (case invoke (Toggle_favorite i) of
        Inl e \<Rightarrow> (Rejected e, send (Toggle_favorite i) st)
      | Inr v \<Rightarrow>
          (Resolved v,
           (send (Toggle_favorite i) st)\<lparr> bookmarks := set_favorite i v (bookmarks st) \<rparr>))"
proof (cases "invoke (Toggle_favorite i)")
  case (Inl e)
  then show ?thesis by (simp add: toggleFavorite_def)
next
  case (Inr v)
  let ?P = "\<lambda>b. bookmark_id b = i"
  show ?thesis
  proof (cases "findIndex ?P (bookmarks st)")
    case None
    from update_first_absent[OF None] have "set_favorite i v (bookmarks st) = bookmarks st"
      by (simp add: set_favorite_def)
    with Inr None show ?thesis by (simp add: toggleFavorite_def send_def)
  next
    case (Some k)
    from update_first_index[OF Some]
    have "(bookmarks st)[k := (bookmarks st ! k)\<lparr> is_favorite := v \<rparr>]
      = set_favorite i v (bookmarks st)"
      by (simp add: set_favorite_def)
    with Inr Some show ?thesis by (simp add: toggleFavorite_def send_def)
  qed
qed

lemma find_map_same:
  "(\<And>x. P (g x) = P x) \<Longrightarrow> find P (map g xs) = map_option g (find P xs)"
  by (induction xs) auto

lemma find_holds: "find P xs = Some x \<Longrightarrow> P x"
  by (induction xs) (auto split: if_splits)

lemma toggle_favorite_present:
  assumes "favorite_of i (rows db) = Some f"
  shows "\<exists>db'. toggle_favorite db i = Inr (\<not> f, db') \<and> favorite_of i (rows db') = Some (\<not> f)"
proof -
  from assms obtain r where r: "find (\<lambda>b. bookmark_id b = i) (rows db) = Some r"
    and f: "f = is_favorite r"
    by (auto simp: favorite_of_def)
  let ?g = "\<lambda>b. if bookmark_id b = i then b\<lparr> is_favorite := \<not> is_favorite r \<rparr> else b"
  have "find (\<lambda>b. bookmark_id b = i) (map ?g (rows db))
      = map_option ?g (find (\<lambda>b. bookmark_id b = i) (rows db))"
    by (rule find_map_same) simp
  moreover from r have "bookmark_id r = i" by (rule find_holds)
  ultimately have "favorite_of i (map ?g (rows db)) = Some (\<not> is_favorite r)"
    using r by (simp add: favorite_of_def)
  then show ?thesis unfolding f by (simp add: toggle_favorite_def r)
qed

lemma toggle_with_backend_present:
  assumes "favorite_of i (rows db) = Some f"
  shows "\<exists>db'. toggle_with_backend i (db, st)
            = (Resolved (\<not> f),
               (db', (send (Toggle_favorite i) st)
                       \<lparr> bookmarks := set_favorite i (\<not> f) (bookmarks st) \<rparr>))
          \<and> favorite_of i (rows db') = Some (\<not> f)"
proof -
  from toggle_favorite_present[OF assms] obtain db' where
    d: "toggle_favorite db i = Inr (\<not> f, db')" "favorite_of i (rows db') = Some (\<not> f)"
    by blast
  then have "serve_toggle db (Toggle_favorite i) = Inr (\<not> f)"
    by (simp add: serve_toggle_def)
  with d show ?thesis
    by (simp add: toggle_with_backend_def toggle_tauri)
qed

text \<open>
  Claim C2. Let the list hold a bookmark with the id, showing the flag \<open>f\<close>.
  Without Tauri, a call returns \<open>\<not> f\<close> and the list shows it, and a second call
  returns \<open>f\<close> and restores the state. With Tauri, after a call that the backend
  answers with \<open>v\<close> the list shows \<open>v\<close> for the id (for every bookmark with the id
  when ids are distinct) and nothing else in the list has changed. Against the backend of
  the specification, when the list shows the stored flag, the first call gives \<open>\<not> f\<close>
  in the reply, in the list and in the database, and the second call gives \<open>f\<close> in all
  three and restores the list.
\<close>

theorem toggleFavorite_round_trip:
  "(favorite_of i (bookmarks st) = Some f \<longrightarrow>
       fst (toggleFavorite False invoke i st) = Resolved (\<not> f)
     \<and> favorite_of i (bookmarks (snd (toggleFavorite False invoke i st))) = Some (\<not> f)
     \<and> toggleFavorite False invoke' i (snd (toggleFavorite False invoke i st))
         = (Resolved f, st))
   \<and> (favorite_of i (bookmarks st) = Some f \<and> invoke (Toggle_favorite i) = Inr v \<longrightarrow>
       fst (toggleFavorite True invoke i st) = Resolved v
     \<and> favorite_of i (bookmarks (snd (toggleFavorite True invoke i st))) = Some v
     \<and> filter (\<lambda>b. bookmark_id b \<noteq> i) (bookmarks (snd (toggleFavorite True invoke i st)))
         = filter (\<lambda>b. bookmark_id b \<noteq> i) (bookmarks st)
     \<and> map bookmark_id (bookmarks (snd (toggleFavorite True invoke i st)))
         = map bookmark_id (bookmarks st)
     \<and> (distinct (map bookmark_id (bookmarks st)) \<longrightarrow>
          (\<forall>b \<in> set (bookmarks (snd (toggleFavorite True invoke i st))).
             bookmark_id b = i \<longrightarrow> is_favorite b = v)))
   \<and> (favorite_of i (bookmarks st) = Some f \<and> favorite_of i (rows db) = Some f \<longrightarrow>
       fst (toggle_with_backend i (db, st)) = Resolved (\<not> f)
     \<and> favorite_of i (bookmarks (snd (snd (toggle_with_backend i (db, st))))) = Some (\<not> f)
     \<and> favorite_of i (rows (fst (snd (toggle_with_backend i (db, st))))) = Some (\<not> f)
     \<and> fst (toggle_with_backend i (snd (toggle_with_backend i (db, st)))) = Resolved f
     \<and> favorite_of i
          (bookmarks (snd (snd (toggle_with_backend i (snd (toggle_with_backend i (db, st)))))))
         = Some f
     \<and> favorite_of i
          (rows (fst (snd (toggle_with_backend i (snd (toggle_with_backend i (db, st)))))))
         = Some f
     \<and> bookmarks (snd (snd (toggle_with_backend i (snd (toggle_with_backend i (db, st))))))
         = bookmarks st)"
proof (intro conjI impI)
  assume a: "favorite_of i (bookmarks st) = Some f"
  let ?st1 = "st\<lparr> bookmarks := set_favorite i (\<not> f) (bookmarks st) \<rparr>"
  have t: "toggleFavorite False invoke i st = (Resolved (\<not> f), ?st1)"
    using a by (rule toggle_mock_present)
  have f1: "favorite_of i (bookmarks ?st1) = Some (\<not> f)"
    using a by (simp add: favorite_of_set_favorite)
  show "fst (toggleFavorite False invoke i st) = Resolved (\<not> f)" using t by simp
  show "favorite_of i (bookmarks (snd (toggleFavorite False invoke i st))) = Some (\<not> f)"
    using t f1 by simp
  have "toggleFavorite False invoke' i ?st1
      = (Resolved (\<not> \<not> f), ?st1\<lparr> bookmarks := set_favorite i (\<not> \<not> f) (bookmarks ?st1) \<rparr>)"
    using f1 by (rule toggle_mock_present)
  then show "toggleFavorite False invoke' i (snd (toggleFavorite False invoke i st))
         = (Resolved f, st)"
    using t set_favorite_back[OF a, of "\<not> f"] by simp
next
  assume "favorite_of i (bookmarks st) = Some f \<and> invoke (Toggle_favorite i) = Inr v"
  then have a: "favorite_of i (bookmarks st) = Some f" and r: "invoke (Toggle_favorite i) = Inr v"
    by simp_all
  have t: "toggleFavorite True invoke i st
      = (Resolved v, (send (Toggle_favorite i) st)\<lparr> bookmarks := set_favorite i v (bookmarks st) \<rparr>)"
    using r by (simp add: toggle_tauri)
  show "fst (toggleFavorite True invoke i st) = Resolved v" using t by simp
  show "favorite_of i (bookmarks (snd (toggleFavorite True invoke i st))) = Some v"
    using t a by (simp add: favorite_of_set_favorite)
  show "filter (\<lambda>b. bookmark_id b \<noteq> i) (bookmarks (snd (toggleFavorite True invoke i st)))
         = filter (\<lambda>b. bookmark_id b \<noteq> i) (bookmarks st)"
    using t by (simp add: set_favorite_others)
  show "map bookmark_id (bookmarks (snd (toggleFavorite True invoke i st)))
         = map bookmark_id (bookmarks st)"
    using t by (simp add: set_favorite_ids)
  show "\<forall>b \<in> set (bookmarks (snd (toggleFavorite True invoke i st))).
             bookmark_id b = i \<longrightarrow> is_favorite b = v"
    if "distinct (map bookmark_id (bookmarks st))"
    using t that set_favorite_all[of "bookmarks st" _ i v] by simp
next
  assume "favorite_of i (bookmarks st) = Some f \<and> favorite_of i (rows db) = Some f"
  then have a: "favorite_of i (bookmarks st) = Some f" and b: "favorite_of i (rows db) = Some f"
    by simp_all
  let ?st1 = "(send (Toggle_favorite i) st)\<lparr> bookmarks := set_favorite i (\<not> f) (bookmarks st) \<rparr>"
  from toggle_with_backend_present[OF b, of st] obtain db1 where
    s1: "toggle_with_backend i (db, st) = (Resolved (\<not> f), (db1, ?st1))"
    and d1: "favorite_of i (rows db1) = Some (\<not> f)"
    by blast
  let ?st2 = "(send (Toggle_favorite i) ?st1)\<lparr> bookmarks := set_favorite i (\<not> \<not> f) (bookmarks ?st1) \<rparr>"
  from toggle_with_backend_present[OF d1, of ?st1] obtain db2 where
    s2: "toggle_with_backend i (db1, ?st1) = (Resolved (\<not> \<not> f), (db2, ?st2))"
    and d2: "favorite_of i (rows db2) = Some (\<not> \<not> f)"
    by blast
  have b2: "bookmarks ?st2 = bookmarks st"
    using set_favorite_back[OF a, of "\<not> f"] by (simp add: send_def)
  show "fst (toggle_with_backend i (db, st)) = Resolved (\<not> f)" using s1 by simp
  show "favorite_of i (bookmarks (snd (snd (toggle_with_backend i (db, st))))) = Some (\<not> f)"
    using s1 a by (simp add: favorite_of_set_favorite)
  show "favorite_of i (rows (fst (snd (toggle_with_backend i (db, st))))) = Some (\<not> f)"
    using s1 d1 by simp
  show "fst (toggle_with_backend i (snd (toggle_with_backend i (db, st)))) = Resolved f"
    using s1 s2 by simp
  show "favorite_of i
          (bookmarks (snd (snd (toggle_with_backend i (snd (toggle_with_backend i (db, st)))))))
         = Some f"
    unfolding s1 snd_conv s2 using b2 a by simp
  show "favorite_of i
          (rows (fst (snd (toggle_with_backend i (snd (toggle_with_backend i (db, st)))))))
         = Some f"
    unfolding s1 snd_conv s2 using d2 by simp
  show "bookmarks (snd (snd (toggle_with_backend i (snd (toggle_with_backend i (db, st))))))
         = bookmarks st"
    unfolding s1 snd_conv s2 using b2 by simp
qed

theorem toggleFavorite_round_trip_witness:
  "favorite_of (str ''7'') (bookmarks one_card_app) = Some False
   \<and> favorite_of (str ''7'') (rows one_card_db) = Some False
   \<and> toggleFavorite False (\<lambda>c. Inl BadCommand) (str ''7'')
         (snd (toggleFavorite False (\<lambda>c. Inl BadCommand) (str ''7'') one_card_app))
       = (Resolved False, one_card_app)
   \<and> favorite_of (str ''7'')
         (bookmarks (snd (toggleFavorite True (\<lambda>c. Inr True) (str ''7'') one_card_app)))
       = Some True
   \<and> fst (toggle_with_backend (str ''7'') (one_card_db, one_card_app)) = Resolved True
   \<and> fst (toggle_with_backend (str ''7'')
              (snd (toggle_with_backend (str ''7'') (one_card_db, one_card_app))))
       = Resolved False
   \<and> bookmarks (snd (snd (toggle_with_backend (str ''7'')
              (snd (toggle_with_backend (str ''7'') (one_card_db, one_card_app))))))
       = [example_card]"
proof -
  have a: "favorite_of (str ''7'') (bookmarks one_card_app) = Some False"
    by (simp add: favorite_of_def one_card_app_def example_card_def)
  have b: "favorite_of (str ''7'') (rows one_card_db) = Some False"
    by (simp add: favorite_of_def one_card_db_def example_card_def)
  have c: "bookmarks one_card_app = [example_card]"
    by (simp add: one_card_app_def)
  note t = toggleFavorite_round_trip[where i = "str ''7''" and st = one_card_app and f = False
      and db = one_card_db and v = True and invoke = "\<lambda>c. Inl BadCommand"
      and invoke' = "\<lambda>c. Inl BadCommand"]
  note u = toggleFavorite_round_trip[where i = "str ''7''" and st = one_card_app and f = False
      and db = one_card_db and v = True and invoke = "\<lambda>c. Inr True"]
  from t a have "toggleFavorite False (\<lambda>c. Inl BadCommand) (str ''7'')
         (snd (toggleFavorite False (\<lambda>c. Inl BadCommand) (str ''7'') one_card_app))
       = (Resolved False, one_card_app)" by blast
  moreover from u a have "favorite_of (str ''7'')
         (bookmarks (snd (toggleFavorite True (\<lambda>c. Inr True) (str ''7'') one_card_app)))
       = Some True" by blast
  moreover from t a b have "fst (toggle_with_backend (str ''7'') (one_card_db, one_card_app))
       = Resolved True" by simp
  moreover from t a b have "fst (toggle_with_backend (str ''7'')
              (snd (toggle_with_backend (str ''7'') (one_card_db, one_card_app))))
       = Resolved False" by simp
  moreover from t a b c have "bookmarks (snd (snd (toggle_with_backend (str ''7'')
              (snd (toggle_with_backend (str ''7'') (one_card_db, one_card_app))))))
       = [example_card]" by simp
  ultimately show ?thesis using a b by blast
qed

section \<open>Sorting by a relation\<close>

lemma insert_by_mset: "mset (insert_by le x xs) = add_mset x (mset xs)"
  by (induction xs) auto

lemma sort_by_mset: "mset (sort_by le xs) = mset xs"
  unfolding sort_by_def by (induction xs) (auto simp: insert_by_mset)

lemma sort_by_set: "set (sort_by le xs) = set xs"
  by (metis sort_by_mset set_mset_mset)

lemma sort_by_length: "length (sort_by le xs) = length xs"
  by (metis sort_by_mset size_mset)

section \<open>Filters\<close>

lemma result_order_set: "set (result_order rel txt bs) = set bs"
  by (cases "txt") (simp_all add: result_order_def list_order_def sort_by_set)

lemma search_with_filters_sound:
  "b \<in> set (search_with_filters tm rel max_limit db q t a d1 d2 fav med lim) \<Longrightarrow>
     b \<in> set (rows db) \<and> satisfies tm q t a d1 d2 fav med b"
  unfolding search_with_filters_def
  by (auto dest!: in_set_takeD simp: result_order_set)

lemma searchWithFilters_backend:
  "bookmarks (searchWithFilters True toLowerCase (serve_items tm rel max_limit db) fs st)
     = search_with_filters tm rel max_limit db
         (or_undefined (query fs)) (or_undefined (tag fs))
         (or_undefined (author fs)) (or_undefined (fromDate fs))
         (or_undefined (toDate fs)) (or_false (favoritesOnly fs)) (hasMedia fs) 100"
  by (simp add: searchWithFilters_def serve_items_def Let_def show_results_def send_def)

lemma result_order_length: "length (result_order rel txt bs) = length bs"
  by (cases "txt") (simp_all add: result_order_def list_order_def sort_by_length)

text \<open>
  Claim C3. \<open>searchWithFilters\<close> sends every provided filter (a filter given as the empty
  string, or \<open>favoritesOnly\<close> given as false, counts as not provided) in one command
  \<open>search_with_filters\<close> and shows the reply as it comes. Against the command of the
  specification every returned item is a stored bookmark that satisfies all of the
  provided filters together, and the items are as many as the limits allow of the stored
  bookmarks that satisfy all of them.
\<close>

theorem searchWithFilters_conjunction:
  "invoked (searchWithFilters True toLowerCase invoke fs st)
     = invoked st @
       [Search_with_filters
          (or_undefined (query fs)) (or_undefined (tag fs))
          (or_undefined (author fs)) (or_undefined (fromDate fs))
          (or_undefined (toDate fs)) (or_false (favoritesOnly fs)) (hasMedia fs) 100]
   \<and> (\<forall>items.
         invoke (Search_with_filters
                   (or_undefined (query fs)) (or_undefined (tag fs))
                   (or_undefined (author fs)) (or_undefined (fromDate fs))
                   (or_undefined (toDate fs)) (or_false (favoritesOnly fs)) (hasMedia fs) 100)
           = Inr items
         \<longrightarrow> bookmarks (searchWithFilters True toLowerCase invoke fs st) = items)
   \<and> (\<forall>b \<in> set (bookmarks
                    (searchWithFilters True toLowerCase (serve_items tm rel max_limit db) fs st)).
         b \<in> set (rows db)
       \<and> (\<forall>q. or_undefined (query fs) = Some q \<longrightarrow> tm q b)
       \<and> (\<forall>t. or_undefined (tag fs) = Some t \<longrightarrow> t \<in> set (tags b))
       \<and> (\<forall>a. or_undefined (author fs) = Some a \<longrightarrow> author_handle b = a)
       \<and> (\<forall>d. or_undefined (fromDate fs) = Some d \<longrightarrow> d \<le> tweeted_at b)
       \<and> (\<forall>d. or_undefined (toDate fs) = Some d \<longrightarrow> tweeted_at b \<le> d)
       \<and> (or_false (favoritesOnly fs) \<longrightarrow> is_favorite b)
       \<and> (\<forall>m. hasMedia fs = Some m \<longrightarrow> (media b \<noteq> []) = m))
   \<and> length (bookmarks
               (searchWithFilters True toLowerCase (serve_items tm rel max_limit db) fs st))
       = min (min 100 max_limit)
           (length (filter
              (satisfies tm (or_undefined (query fs)) (or_undefined (tag fs))
                 (or_undefined (author fs)) (or_undefined (fromDate fs))
                 (or_undefined (toDate fs)) (or_false (favoritesOnly fs)) (hasMedia fs))
              (rows db)))"
proof (intro conjI ballI allI impI)
  show "invoked (searchWithFilters True toLowerCase invoke fs st)
     = invoked st @
       [Search_with_filters
          (or_undefined (query fs)) (or_undefined (tag fs))
          (or_undefined (author fs)) (or_undefined (fromDate fs))
          (or_undefined (toDate fs)) (or_false (favoritesOnly fs)) (hasMedia fs) 100]"
    by (simp add: searchWithFilters_def Let_def send_def show_results_def split: sum.splits)
next
  fix items
  assume "invoke (Search_with_filters
                   (or_undefined (query fs)) (or_undefined (tag fs))
                   (or_undefined (author fs)) (or_undefined (fromDate fs))
                   (or_undefined (toDate fs)) (or_false (favoritesOnly fs)) (hasMedia fs) 100)
           = Inr items"
  then show "bookmarks (searchWithFilters True toLowerCase invoke fs st) = items"
    by (simp add: searchWithFilters_def Let_def send_def show_results_def)
next
  show "length (bookmarks
               (searchWithFilters True toLowerCase (serve_items tm rel max_limit db) fs st))
       = min (min 100 max_limit)
           (length (filter
              (satisfies tm (or_undefined (query fs)) (or_undefined (tag fs))
                 (or_undefined (author fs)) (or_undefined (fromDate fs))
                 (or_undefined (toDate fs)) (or_false (favoritesOnly fs)) (hasMedia fs))
              (rows db)))"
    unfolding searchWithFilters_backend
    by (simp add: search_with_filters_def result_order_length validate_limit_def min.commute)
next
  fix b
  assume "b \<in> set (bookmarks
                    (searchWithFilters True toLowerCase (serve_items tm rel max_limit db) fs st))"
  then have s: "b \<in> set (rows db)
      \<and> satisfies tm (or_undefined (query fs)) (or_undefined (tag fs))
         (or_undefined (author fs)) (or_undefined (fromDate fs))
         (or_undefined (toDate fs)) (or_false (favoritesOnly fs)) (hasMedia fs) b"
    unfolding searchWithFilters_backend by (rule search_with_filters_sound)
  then show "b \<in> set (rows db)" by simp
  {
    fix q assume "or_undefined (query fs) = Some q"
    with s show "tm q b" by (simp add: satisfies_def)
  }
  {
    fix t assume "or_undefined (tag fs) = Some t"
    with s show "t \<in> set (tags b)" by (simp add: satisfies_def)
  }
  {
    fix a assume "or_undefined (author fs) = Some a"
    with s show "author_handle b = a" by (simp add: satisfies_def)
  }
  {
    fix d assume "or_undefined (fromDate fs) = Some d"
    with s show "d \<le> tweeted_at b" by (simp add: satisfies_def)
  }
  {
    fix d assume "or_undefined (toDate fs) = Some d"
    with s show "tweeted_at b \<le> d" by (simp add: satisfies_def)
  }
  {
    assume "or_false (favoritesOnly fs)"
    with s show "is_favorite b" by (simp add: satisfies_def)
  }
  {
    fix m assume "hasMedia fs = Some m"
    with s show "(media b \<noteq> []) = m" by (simp add: satisfies_def)
  }
qed

theorem searchWithFilters_conjunction_witness:
  "bookmarks (searchWithFilters True not_called (serve_items (\<lambda>q b. True) (\<lambda>q b. 0) 100 mock_db)
               technology_favorites initial_app)
     = [hd mockBookmarks]
   \<and> str ''technology'' \<in> set (tags (hd mockBookmarks))
   \<and> is_favorite (hd mockBookmarks)
   \<and> str ''technology'' \<in> set (tags (mockBookmarks ! 1))
   \<and> \<not> is_favorite (mockBookmarks ! 1)
   \<and> invoked (searchWithFilters True not_called (\<lambda>c. Inl StorageBusy) technology_favorites
                initial_app)
     = [Search_with_filters None (Some (str ''technology'')) None None None True None 100]"
proof -
  have f: "filter (satisfies (\<lambda>q b. True) None (Some (str ''technology'')) None None None True None)
             mockBookmarks = [hd mockBookmarks]"
    by (simp add: mockBookmarks_def satisfies_def str_def)
  have ne: "str ''technology'' \<noteq> []" by (simp add: str_def)
  have a: "bookmarks (searchWithFilters True not_called (serve_items (\<lambda>q b. True) (\<lambda>q b. 0) 100 mock_db)
               technology_favorites initial_app) = [hd mockBookmarks]"
    unfolding searchWithFilters_backend
    by (simp add: ne search_with_filters_def technology_favorites_def or_undefined_def
        or_false_def mock_db_def f result_order_def list_order_def sort_by_def
        validate_limit_def)
  have t: "or_undefined (tag technology_favorites) = Some (str ''technology'')"
    and v: "or_false (favoritesOnly technology_favorites)"
    and o: "or_undefined (query technology_favorites) = None"
      "or_undefined (author technology_favorites) = None"
      "or_undefined (fromDate technology_favorites) = None"
      "or_undefined (toDate technology_favorites) = None"
      "hasMedia technology_favorites = None"
    by (simp_all add: ne technology_favorites_def or_undefined_def or_false_def)
  have second: "str ''technology'' \<in> set (tags (mockBookmarks ! 1))"
    "\<not> is_favorite (mockBookmarks ! 1)"
    by (simp_all add: mockBookmarks_def)
  note th = searchWithFilters_conjunction[where fs = technology_favorites
      and toLowerCase = not_called
      and tm = "\<lambda>q b. True" and rel = "\<lambda>q b. 0" and max_limit = 100 and db = mock_db
      and st = initial_app and invoke = "\<lambda>c. Inl StorageBusy"]
  from th a t have "str ''technology'' \<in> set (tags (hd mockBookmarks))" by simp
  moreover from th a v have "is_favorite (hd mockBookmarks)" by simp
  moreover from th t v o
  have "invoked (searchWithFilters True not_called (\<lambda>c. Inl StorageBusy) technology_favorites
                initial_app)
     = [Search_with_filters None (Some (str ''technology'')) None None None True None 100]"
    by (simp add: initial_app_def)
  ultimately show ?thesis using a second by blast
qed

subsection \<open>Without Tauri\<close>

lemma mock_favorites: "filter is_favorite mockBookmarks = [hd mockBookmarks]"
  by (simp add: mockBookmarks_def)

text \<open>
  Without Tauri no command is sent: \<open>searchWithFilters\<close> filters the mock bookmarks by
  the query and by \<open>favoritesOnly\<close>, and by nothing else. With the tag \<open>rust\<close> and
  \<open>favoritesOnly\<close> it shows the first mock bookmark, a favourite whose tags are
  \<open>technology\<close> and \<open>programming\<close>.
\<close>

lemma mock_filters_ignore_tag:
  "tag rust_favorites = Some (str ''rust'')
   \<and> favoritesOnly rust_favorites = Some True
   \<and> bookmarks (searchWithFilters False toLowerCase (\<lambda>c. Inl BadCommand) rust_favorites initial_app)
       = [hd mockBookmarks]
   \<and> is_favorite (hd mockBookmarks)
   \<and> str ''rust'' \<notin> set (tags (hd mockBookmarks))"
proof -
  have "bookmarks (searchWithFilters False toLowerCase (\<lambda>c. Inl BadCommand) rust_favorites initial_app)
       = filter is_favorite mockBookmarks"
    by (simp add: searchWithFilters_def Let_def rust_favorites_def or_undefined_def
        or_false_def show_results_def)
  moreover have "str ''rust'' \<notin> set (tags (hd mockBookmarks))"
    by (simp add: mockBookmarks_def str_def)
  moreover have "is_favorite (hd mockBookmarks)"
    by (simp add: mockBookmarks_def)
  ultimately show ?thesis
    by (simp add: mock_favorites rust_favorites_def)
qed

section \<open>Pagination\<close>



















section \<open>Import\<close>

lemma batches_concat: "concat (batches n xs) = xs"
  by (induction n xs rule: batches.induct) simp_all

lemma fold_batches:
  "fold (commit_batch id_of now) (batches n parsed) s = fold (ingest_row id_of now) parsed s"
proof -
  have "fold (commit_batch id_of now) xss s = fold (ingest_row id_of now) (concat xss) s"
    for xss
    by (induction xss arbitrary: s) (simp_all add: commit_batch_def)
  then show ?thesis by (simp add: batches_concat)
qed

lemma ingest_row_urls:
  "urls (fst (ingest_row id_of now r s))
     = (case r of
          Inl e \<Rightarrow> urls (fst s)
        | Inr b \<Rightarrow> if tweet_url b \<in> set (urls (fst s)) then urls (fst s)
                   else urls (fst s) @ [tweet_url b])"
  by (simp add: ingest_row_def urls_def Let_def split: sum.splits)

lemma ingest_row_duplicate:
  "tweet_url b \<in> set (urls (fst s)) \<Longrightarrow>
     ingest_row id_of now (Inr b) s
       = (fst s, (snd s)\<lparr> total_rows := total_rows (snd s) + 1,
                          rows_skipped_duplicate := rows_skipped_duplicate (snd s) + 1 \<rparr>)"
  by (simp add: ingest_row_def urls_def Let_def)

lemma ingest_row_error:
  "ingest_row id_of now (Inl e) s
       = (fst s, (snd s)\<lparr> total_rows := total_rows (snd s) + 1,
                          rows_rejected := rows_rejected (snd s) @ [e] \<rparr>)"
  by (simp add: ingest_row_def Let_def)

lemma ingest_row_imported:
  "rows_imported (snd (ingest_row id_of now r s)) =
     rows_imported (snd s)
       + (case r of Inl e \<Rightarrow> 0 | Inr b \<Rightarrow> if tweet_url b \<in> set (urls (fst s)) then 0 else 1)"
  by (simp add: ingest_row_def urls_def Let_def split: sum.splits)

lemma valid_rows_simps [simp]:
  "valid_rows [] = []"
  "valid_rows (Inl e # rs) = valid_rows rs"
  "valid_rows (Inr b # rs) = b # valid_rows rs"
  by (simp_all add: valid_rows_def List.map_filter_simps)

lemma row_errors_simps [simp]:
  "row_errors [] = []"
  "row_errors (Inl e # rs) = e # row_errors rs"
  "row_errors (Inr b # rs) = row_errors rs"
  by (simp_all add: row_errors_def List.map_filter_simps)

lemma length_rows_split: "length (valid_rows parsed) + length (row_errors parsed) = length parsed"
proof (induction parsed)
  case Nil
  show ?case by simp
next
  case (Cons r rs)
  then show ?case by (cases r) simp_all
qed

lemma fold_ingest_urls:
  "set (urls (fst (fold (ingest_row id_of now) parsed s)))
     = set (urls (fst s)) \<union> tweet_url ` set (valid_rows parsed)"
proof (induction parsed arbitrary: s)
  case Nil
  show ?case by simp
next
  case (Cons r rs)
  show ?case
  proof (cases r)
    case (Inl e)
    then show ?thesis by (simp add: Cons.IH ingest_row_urls)
  next
    case (Inr b)
    then show ?thesis by (auto simp: Cons.IH ingest_row_urls)
  qed
qed

lemma fold_ingest_distinct:
  "distinct (urls (fst s)) \<Longrightarrow> distinct (urls (fst (fold (ingest_row id_of now) parsed s)))"
proof (induction parsed arbitrary: s)
  case Nil
  then show ?case by simp
next
  case (Cons r rs)
  have "distinct (urls (fst (ingest_row id_of now r s)))"
    using Cons.prems by (cases r) (simp_all add: ingest_row_urls)
  then show ?case by (simp add: Cons.IH)
qed

lemma ingest_row_total:
  "total_rows (snd (ingest_row id_of now r s)) = total_rows (snd s) + 1"
  by (simp add: ingest_row_def Let_def split: sum.splits)

lemma ingest_row_rejected:
  "rows_rejected (snd (ingest_row id_of now r s))
     = rows_rejected (snd s) @ (case r of Inl e \<Rightarrow> [e] | Inr b \<Rightarrow> [])"
  by (simp add: ingest_row_def Let_def split: sum.splits)

lemma fold_ingest_total:
  "total_rows (snd (fold (ingest_row id_of now) parsed s)) = total_rows (snd s) + length parsed"
  by (induction parsed arbitrary: s) (simp_all add: ingest_row_total)

lemma fold_ingest_rejected:
  "rows_rejected (snd (fold (ingest_row id_of now) parsed s))
     = rows_rejected (snd s) @ row_errors parsed"
proof (induction parsed arbitrary: s)
  case Nil
  show ?case by simp
next
  case (Cons r rs)
  show ?case by (cases r) (simp_all add: Cons.IH ingest_row_rejected)
qed

lemma fold_ingest_known:
  assumes "tweet_url ` set (valid_rows parsed) \<subseteq> set (urls (fst s))"
  shows "fst (fold (ingest_row id_of now) parsed s) = fst s
       \<and> rows_imported (snd (fold (ingest_row id_of now) parsed s)) = rows_imported (snd s)
       \<and> rows_skipped_duplicate (snd (fold (ingest_row id_of now) parsed s))
           = rows_skipped_duplicate (snd s) + length (valid_rows parsed)"
  using assms
proof (induction parsed arbitrary: s)
  case Nil
  show ?case by simp
next
  case (Cons r rs)
  show ?case
  proof (cases r)
    case (Inl e)
    with Cons.prems have "tweet_url ` set (valid_rows rs)
        \<subseteq> set (urls (fst (ingest_row id_of now r s)))"
      by (simp add: ingest_row_error)
    from Cons.IH[OF this] Inl show ?thesis by (simp add: ingest_row_error)
  next
    case (Inr b)
    with Cons.prems have d: "tweet_url b \<in> set (urls (fst s))" by simp
    with Cons.prems Inr have "tweet_url ` set (valid_rows rs)
        \<subseteq> set (urls (fst (ingest_row id_of now r s)))"
      by (simp add: ingest_row_duplicate)
    from Cons.IH[OF this] Inr d show ?thesis by (simp add: ingest_row_duplicate)
  qed
qed

lemma import_rows_normal:
  "import_rows id_of now bs Normal parsed db
     = fold (ingest_row id_of now) parsed (db, empty_summary)"
  by (simp add: import_rows_def fold_batches Let_def)

lemma reimport_counts:
  "rows_imported (snd (import_rows id_of' now' bs' Normal parsed
                         (fst (import_rows id_of now bs Normal parsed db)))) = 0
   \<and> fst (import_rows id_of' now' bs' Normal parsed (fst (import_rows id_of now bs Normal parsed db)))
       = fst (import_rows id_of now bs Normal parsed db)
   \<and> total_rows (snd (import_rows id_of' now' bs' Normal parsed
                         (fst (import_rows id_of now bs Normal parsed db)))) = length parsed
   \<and> rows_rejected (snd (import_rows id_of' now' bs' Normal parsed
                            (fst (import_rows id_of now bs Normal parsed db)))) = row_errors parsed
   \<and> rows_skipped_duplicate (snd (import_rows id_of' now' bs' Normal parsed
                                     (fst (import_rows id_of now bs Normal parsed db))))
       = length parsed - length (row_errors parsed)"
proof -
  let ?db1 = "fst (import_rows id_of now bs Normal parsed db)"
  let ?second = "import_rows id_of' now' bs' Normal parsed ?db1"
  have k: "tweet_url ` set (valid_rows parsed) \<subseteq> set (urls (fst (?db1, empty_summary)))"
    by (simp add: import_rows_normal fold_ingest_urls)
  have s2: "?second = fold (ingest_row id_of' now') parsed (?db1, empty_summary)"
    by (rule import_rows_normal)
  note kn = fold_ingest_known[OF k, of id_of' now']
  have a: "rows_imported (snd ?second) = 0"
    unfolding s2 using kn by (simp add: empty_summary_def)
  have b: "fst ?second = ?db1" unfolding s2 using kn by simp
  have c: "total_rows (snd ?second) = length parsed"
    unfolding s2 by (simp add: fold_ingest_total empty_summary_def)
  have d: "rows_rejected (snd ?second) = row_errors parsed"
    unfolding s2 by (simp add: fold_ingest_rejected empty_summary_def)
  have e: "rows_skipped_duplicate (snd ?second) = length parsed - length (row_errors parsed)"
    unfolding s2 using kn length_rows_split[of parsed] by (simp add: empty_summary_def)
  from a b c d e show ?thesis by simp
qed

lemma scenario_errors: "length (row_errors scenario_file) = 1" "length scenario_file = 3"
  by (simp_all add: scenario_file_def)

lemma scenario_first_import:
  "snd (import_rows (\<lambda>n. [48 + n]) (str ''2024-05-02T10:00:00Z'') 2 Normal scenario_file empty_db)
     = \<lparr> total_rows = 3, rows_imported = 2, rows_skipped_duplicate = 0,
         rows_rejected =
           [\<lparr> row_index = 2, reason = UnparsableDate, fragment = str ''yesterday'' \<rparr>] \<rparr>"
proof -
  have u: "tweet_url (hd (tl mockBookmarks)) \<noteq> tweet_url (hd mockBookmarks)"
    by (simp add: mockBookmarks_def str_def)
  show ?thesis
    unfolding import_rows_normal scenario_file_def
    using u by (simp add: ingest_row_def Let_def empty_db_def empty_summary_def)
qed

text \<open>
  Claim C1, as amended. Importing the parsed rows of a file a second time commits nothing:
  the database is the one after the first import, \<open>rows_imported\<close> is 0, the rows that
  the parser rejects are rejected again, and every other row is skipped as a duplicate, so
  that \<open>rows_skipped_duplicate\<close> is \<open>total_rows\<close> less the rejected rows (it is
  \<open>total_rows\<close> when no row is rejected). Stored URLs that were distinct stay distinct.
\<close>

theorem reimport_commits_nothing:
  "import_file id_of' now' bs' Normal (Some parsed) (fst (import_rows id_of now bs Normal parsed db))
     = Inr (import_rows id_of' now' bs' Normal parsed (fst (import_rows id_of now bs Normal parsed db)))
   \<and> rows_imported (snd (import_rows id_of' now' bs' Normal parsed
                            (fst (import_rows id_of now bs Normal parsed db)))) = 0
   \<and> fst (import_rows id_of' now' bs' Normal parsed (fst (import_rows id_of now bs Normal parsed db)))
       = fst (import_rows id_of now bs Normal parsed db)
   \<and> total_rows (snd (import_rows id_of' now' bs' Normal parsed
                         (fst (import_rows id_of now bs Normal parsed db)))) = length parsed
   \<and> rows_rejected (snd (import_rows id_of' now' bs' Normal parsed
                            (fst (import_rows id_of now bs Normal parsed db)))) = row_errors parsed
   \<and> rows_skipped_duplicate (snd (import_rows id_of' now' bs' Normal parsed
                                     (fst (import_rows id_of now bs Normal parsed db))))
       = length parsed - length (row_errors parsed)
   \<and> (row_errors parsed = [] \<longrightarrow>
        rows_skipped_duplicate (snd (import_rows id_of' now' bs' Normal parsed
                                       (fst (import_rows id_of now bs Normal parsed db))))
          = length parsed)
   \<and> (distinct (urls db) \<longrightarrow>
        distinct (urls (fst (import_rows id_of now bs Normal parsed db))))"
proof -
  let ?db1 = "fst (import_rows id_of now bs Normal parsed db)"
  let ?second = "import_rows id_of' now' bs' Normal parsed ?db1"
  note r = reimport_counts[of id_of' now' bs' parsed id_of now bs db]
  have f: "distinct (urls ?db1)" if "distinct (urls db)"
    unfolding import_rows_normal by (rule fold_ingest_distinct) (simp add: that)
  have g: "import_file id_of' now' bs' Normal (Some parsed) ?db1 = Inr ?second"
    by (simp add: import_file_def)
  from r f g show ?thesis by simp
qed

theorem reimport_commits_nothing_witness:
  "distinct (urls empty_db)
   \<and> rows_imported (snd (import_rows (\<lambda>n. [48 + n]) (str ''2024-05-02T10:00:00Z'') 2 Normal
                           scenario_file empty_db)) = 2
   \<and> distinct (urls (fst (import_rows (\<lambda>n. [48 + n]) (str ''2024-05-02T10:00:00Z'') 2 Normal
                              scenario_file empty_db)))
   \<and> rows_imported
         (snd (import_rows (\<lambda>n. [48 + n]) (str ''2024-05-03T10:00:00Z'') 2 Normal
                 scenario_file
                 (fst (import_rows (\<lambda>n. [48 + n]) (str ''2024-05-02T10:00:00Z'') 2 Normal
                         scenario_file empty_db)))) = 0
   \<and> rows_skipped_duplicate
         (snd (import_rows (\<lambda>n. [48 + n]) (str ''2024-05-03T10:00:00Z'') 2 Normal
                 [Inr (hd mockBookmarks)]
                 (fst (import_rows (\<lambda>n. [48 + n]) (str ''2024-05-02T10:00:00Z'') 2 Normal
                         [Inr (hd mockBookmarks)] empty_db)))) = 1"
proof -
  have d: "distinct (urls empty_db)" by (simp add: urls_def empty_db_def)
  note t = reimport_commits_nothing[of "\<lambda>n. [48 + n]" "str ''2024-05-03T10:00:00Z''" 2
      scenario_file "\<lambda>n. [48 + n]" "str ''2024-05-02T10:00:00Z''" 2 empty_db]
  note u = reimport_commits_nothing[of "\<lambda>n. [48 + n]" "str ''2024-05-03T10:00:00Z''" 2
      "[Inr (hd mockBookmarks)]" "\<lambda>n. [48 + n]" "str ''2024-05-02T10:00:00Z''" 2 empty_db]
  have e: "row_errors [Inr (hd mockBookmarks)] = []" by simp
  from t d have "distinct (urls (fst (import_rows (\<lambda>n. [48 + n]) (str ''2024-05-02T10:00:00Z'') 2
      Normal scenario_file empty_db)))" by blast
  moreover from t have "rows_imported
         (snd (import_rows (\<lambda>n. [48 + n]) (str ''2024-05-03T10:00:00Z'') 2 Normal
                 scenario_file
                 (fst (import_rows (\<lambda>n. [48 + n]) (str ''2024-05-02T10:00:00Z'') 2 Normal
                         scenario_file empty_db)))) = 0" by blast
  moreover from u e have "rows_skipped_duplicate
         (snd (import_rows (\<lambda>n. [48 + n]) (str ''2024-05-03T10:00:00Z'') 2 Normal
                 [Inr (hd mockBookmarks)]
                 (fst (import_rows (\<lambda>n. [48 + n]) (str ''2024-05-02T10:00:00Z'') 2 Normal
                         [Inr (hd mockBookmarks)] empty_db)))) = 1" by simp
  ultimately show ?thesis using d by (simp add: scenario_first_import)
qed

text \<open>
  The claim C1 as stated fails on the scenario of the specification: the second import of
  the three rows sees three rows and skips two, the row with the bad date being rejected
  again.
\<close>

theorem reimport_with_rejected_row:
  "total_rows (snd (import_rows (\<lambda>n. [48 + n]) (str ''2024-05-03T10:00:00Z'') 2 Normal
                      scenario_file
                      (fst (import_rows (\<lambda>n. [48 + n]) (str ''2024-05-02T10:00:00Z'') 2 Normal
                              scenario_file empty_db)))) = 3
   \<and> rows_skipped_duplicate
         (snd (import_rows (\<lambda>n. [48 + n]) (str ''2024-05-03T10:00:00Z'') 2 Normal
                 scenario_file
                 (fst (import_rows (\<lambda>n. [48 + n]) (str ''2024-05-02T10:00:00Z'') 2 Normal
                         scenario_file empty_db)))) = 2
   \<and> rows_imported
         (snd (import_rows (\<lambda>n. [48 + n]) (str ''2024-05-03T10:00:00Z'') 2 Normal
                 scenario_file
                 (fst (import_rows (\<lambda>n. [48 + n]) (str ''2024-05-02T10:00:00Z'') 2 Normal
                         scenario_file empty_db)))) = 0"
  using reimport_counts[of "\<lambda>n. [48 + n]" "str ''2024-05-03T10:00:00Z''" 2 scenario_file
      "\<lambda>n. [48 + n]" "str ''2024-05-02T10:00:00Z''" 2 empty_db]
  by (simp add: scenario_errors)

end
